theory Spec2Isabelle
  imports Complex_Main
begin

section \<open>Python string primitives used by the honeypot\<close>

text \<open>
  The functions below are the \<^verbatim>\<open>str\<close> methods the source calls: \<^verbatim>\<open>startswith\<close>,
  \<^verbatim>\<open>split(sep)\<close>, \<^verbatim>\<open>sep.join\<close>, \<^verbatim>\<open>strip(chars)\<close>, \<^verbatim>\<open>strip()\<close> and \<^verbatim>\<open>split()\<close>.
  A string is a list of characters.
\<close>

fun startswith :: "string \<Rightarrow> string \<Rightarrow> bool" where
  "startswith s [] = True"
| "startswith [] (p # ps) = False"
| "startswith (c # cs) (p # ps) = (c = p \<and> startswith cs ps)"

text \<open>\<^verbatim>\<open>s.split(sep)\<close> for a one-character separator: always at least one piece.\<close>

fun split_sep :: "char \<Rightarrow> string \<Rightarrow> string list" where
  "split_sep sep [] = [[]]"
| "split_sep sep (c # cs) =
     (if c = sep then [] # split_sep sep cs
      else (case split_sep sep cs of
              [] \<Rightarrow> [[c]]
            | p # ps \<Rightarrow> (c # p) # ps))"

fun join_sep :: "string \<Rightarrow> string list \<Rightarrow> string" where
  "join_sep sep [] = []"
| "join_sep sep [x] = x"
| "join_sep sep (x # y # ys) = x @ sep @ join_sep sep (y # ys)"

definition strip_char :: "char \<Rightarrow> string \<Rightarrow> string" where
  "strip_char ch s = rev (dropWhile (\<lambda>c. c = ch) (rev (dropWhile (\<lambda>c. c = ch) s)))"

text \<open>
  The characters \<^verbatim>\<open>str.isspace\<close> accepts among the code points a \<^typ>\<open>char\<close> can hold:
  tab to carriage return, the four separators 28 to 31, the space, NEL and the no-break
  space.
\<close>

definition is_space :: "char \<Rightarrow> bool" where
  "is_space c =
     (let n = (of_char c :: nat)
      in (9 \<le> n \<and> n \<le> 13) \<or> (28 \<le> n \<and> n \<le> 32) \<or> n = 133 \<or> n = 160)"

definition strip_ws :: "string \<Rightarrow> string" where
  "strip_ws s = rev (dropWhile is_space (rev (dropWhile is_space s)))"

text \<open>\<^verbatim>\<open>s.split()\<close>: the maximal runs of non-space characters.\<close>

fun split_ws_acc :: "string \<Rightarrow> string \<Rightarrow> string list" where
  "split_ws_acc word [] = (if word = [] then [] else [word])"
| "split_ws_acc word (c # cs) =
     (if is_space c then (if word = [] then split_ws_acc [] cs else word # split_ws_acc [] cs)
      else split_ws_acc (word @ [c]) cs)"

definition split_ws :: "string \<Rightarrow> string list" where
  "split_ws s = split_ws_acc [] s"

section \<open>The virtual filesystem (\<^verbatim>\<open>deception.py\<close>, class \<^verbatim>\<open>FakeFilesystem\<close>)\<close>

text \<open>
  A node of \<^verbatim>\<open>self.fs\<close> is the dictionary \<^verbatim>\<open>{'type': ..., 'contents': [...]}\<close>;
  \<^verbatim>\<open>self.fs\<close> and \<^verbatim>\<open>self.file_contents\<close> are dictionaries keyed by path.
\<close>

text \<open>
  A value parsed from JSON, as \<^verbatim>\<open>json.loads\<close> and \<^verbatim>\<open>response.json()\<close> return it. An
  object is the parsed dictionary, looked up with \<^const>\<open>map_of\<close>; a number is its value
  (only whether it is zero is ever tested). The content of a file is such a value: the
  files of \<^verbatim>\<open>__init__\<close> hold strings, a decoy holds whatever the oracle's answer gave.
\<close>

datatype json =
    JNull
  | JBool bool
  | JNum real
  | JStr string
  | JArr "json list"
  | JObj "(string \<times> json) list"

record node =
  ntype :: string
  contents :: "string list"

record filesystem =
  fs :: "string \<rightharpoonup> node"
  file_contents :: "string \<rightharpoonup> json"

text \<open>
  The exceptions that occur: a missing dictionary key, a value that cannot be sliced, a
  value without the method called on it, and the error \<^verbatim>\<open>chan.send\<close> raises on a closed or
  stalled channel.
\<close>

datatype pyexn = KeyError | TypeError | AttributeError | SocketError

definition dir_node :: "string list \<Rightarrow> node" where
  "dir_node names = \<lparr>ntype = ''dir'', contents = names\<rparr>"

text \<open>
  The dictionaries built by \<^verbatim>\<open>__init__\<close>. The template file \<^verbatim>\<open>decoy_templates.json\<close>
  is not among the sources; without it \<^verbatim>\<open>_load_decoy_blueprints\<close> returns at once and the
  filesystem is the literal one.
\<close>

definition init_fs_alist :: "(string \<times> node) list" where
  "init_fs_alist =
    [(''/'', dir_node [''bin'', ''etc'', ''home'', ''var'', ''usr'', ''tmp'', ''root'']),
     (''/bin'', dir_node [''ls'', ''cd'', ''pwd'', ''cat'', ''echo'', ''bash'', ''sh'']),
     (''/etc'', dir_node [''passwd'', ''shadow'', ''hostname'', ''hosts'']),
     (''/home'', dir_node [''user'']),
     (''/home/user'', dir_node []),
     (''/var'', dir_node [''log'', ''www'']),
     (''/var/log'', dir_node [''auth.log'', ''syslog'']),
     (''/root'', dir_node []),
     (''/tmp'', dir_node []),
     (''/usr'', dir_node [''bin'', ''lib''])]"

definition init_file_alist :: "(string \<times> json) list" where
  "init_file_alist =
    [(''/etc/passwd'',
        JStr (''root:x:0:0:root:/root:/bin/bash'' @ [CHR 0x0A] @
              ''user:x:1000:1000:user:/home/user:/bin/bash'' @ [CHR 0x0A])),
     (''/etc/shadow'',
        JStr (''root:*:19777:0:99999:7:::'' @ [CHR 0x0A] @
              ''user:*:19777:0:99999:7:::'' @ [CHR 0x0A])),
     (''/etc/hostname'', JStr (''server01'' @ [CHR 0x0A])),
     (''/etc/hosts'',
        JStr (''127.0.0.1'' @ [CHR 0x09] @ ''localhost'' @ [CHR 0x0A] @
              ''127.0.1.1'' @ [CHR 0x09] @ ''server01'' @ [CHR 0x0A]))]"

definition FakeFilesystem :: filesystem where
  "FakeFilesystem = \<lparr>fs = map_of init_fs_alist, file_contents = map_of init_file_alist\<rparr>"

subsection \<open>\<^verbatim>\<open>resolve_path\<close>\<close>

text \<open>One pass of the normalisation loop: the body of \<^verbatim>\<open>for part in parts\<close>.\<close>

definition norm_step :: "string list \<Rightarrow> string \<Rightarrow> string list" where
  "norm_step normalized part =
     (if part = [] \<or> part = ''.'' then normalized
      else if part = ''..'' then (if normalized \<noteq> [] then butlast normalized else normalized)
      else normalized @ [part])"

definition normalize_parts :: "string list \<Rightarrow> string list" where
  "normalize_parts parts = foldl norm_step [] parts"

definition resolve_target :: "string \<Rightarrow> string \<Rightarrow> string" where
  "resolve_target current_path new_path =
     (if startswith new_path ''/'' then new_path
      else if current_path = ''/'' then ''/'' @ new_path
      else current_path @ ''/'' @ new_path)"

definition resolve_path :: "string \<Rightarrow> string \<Rightarrow> string" where
  "resolve_path current_path new_path =
     ''/'' @ join_sep ''/''
       (normalize_parts (split_sep CHR ''/'' (resolve_target current_path new_path)))"

subsection \<open>Lookups\<close>

definition list_dir :: "filesystem \<Rightarrow> string \<Rightarrow> string list option" where
  "list_dir fsys path =
     (case fs fsys path of
        None \<Rightarrow> None
      | Some nd \<Rightarrow> if ntype nd \<noteq> ''dir'' then None else Some (contents nd))"

text \<open>\<^verbatim>\<open>get_file_content\<close> answers \<^verbatim>\<open>None\<close> for a path that has no content.\<close>

definition get_file_content :: "filesystem \<Rightarrow> string \<Rightarrow> json" where
  "get_file_content fsys path =
     (case file_contents fsys path of None \<Rightarrow> JNull | Some content \<Rightarrow> content)"

definition is_dir :: "filesystem \<Rightarrow> string \<Rightarrow> bool" where
  "is_dir fsys path = (case fs fsys path of None \<Rightarrow> False | Some nd \<Rightarrow> ntype nd = ''dir'')"

definition is_file :: "filesystem \<Rightarrow> string \<Rightarrow> bool" where
  "is_file fsys path = (file_contents fsys path \<noteq> None)"

subsection \<open>\<^verbatim>\<open>deploy_decoy\<close>\<close>

text \<open>
  The body of \<^verbatim>\<open>for part in parts[:-1]\<close>, as a recursion over the remaining parts
  with \<^verbatim>\<open>current_dir\<close> and \<^verbatim>\<open>self.fs\<close> passed along. \<^verbatim>\<open>self.fs[current_dir]\<close>
  raises \<^verbatim>\<open>KeyError\<close> on a missing key; the dictionary is mutated in place, so the
  result carries the dictionary as it is when the exception leaves the loop.
\<close>

definition join_dir :: "string \<Rightarrow> string \<Rightarrow> string" where
  "join_dir current_dir part =
     (if current_dir = ''/'' then current_dir @ part else current_dir @ ''/'' @ part)"

definition add_name :: "string \<Rightarrow> node \<Rightarrow> node" where
  "add_name name nd =
     (if name \<in> set (contents nd) then nd else nd\<lparr>contents := contents nd @ [name]\<rparr>)"

fun deploy_dirs ::
  "string list \<Rightarrow> string \<Rightarrow> (string \<rightharpoonup> node) \<Rightarrow> pyexn option \<times> string \<times> (string \<rightharpoonup> node)"
where
  "deploy_dirs [] current_dir m = (None, current_dir, m)"
| "deploy_dirs (part # rest) current_dir m =
     (if part = [] then deploy_dirs rest current_dir m
      else
        let next_dir = join_dir current_dir part in
        (case m next_dir of
           Some _ \<Rightarrow> deploy_dirs rest next_dir m
         | None \<Rightarrow>
            (let m1 = m(next_dir \<mapsto> \<lparr>ntype = ''dir'', contents = []\<rparr>) in
             (case m1 current_dir of
                None \<Rightarrow> (Some KeyError, current_dir, m1)
              | Some nd \<Rightarrow> deploy_dirs rest next_dir (m1(current_dir \<mapsto> add_name part nd))))))"

text \<open>
  \<^verbatim>\<open>parts\<close> is the result of \<^verbatim>\<open>split\<close> and so never empty: \<^verbatim>\<open>parts[-1]\<close> is its
  last element and \<^verbatim>\<open>parts[:-1]\<close> the rest.
\<close>

definition decoy_parts :: "string \<Rightarrow> string list" where
  "decoy_parts path = split_sep CHR ''/'' (strip_char CHR ''/'' path)"

definition deploy_decoy :: "string \<Rightarrow> json \<Rightarrow> filesystem \<Rightarrow> pyexn option \<times> filesystem" where
  "deploy_decoy path content fsys =
     (let fc = (file_contents fsys)(path \<mapsto> content);
          parts = decoy_parts path;
          filename = last parts
      in (case deploy_dirs (butlast parts) ''/'' (fs fsys) of
            (Some e, current_dir, m) \<Rightarrow> (Some e, \<lparr>fs = m, file_contents = fc\<rparr>)
          | (None, current_dir, m) \<Rightarrow>
              (None,
               \<lparr>fs = (case m current_dir of
                        None \<Rightarrow> m
                      | Some nd \<Rightarrow> m(current_dir \<mapsto> add_name filename nd)),
                file_contents = fc\<rparr>)))"

text \<open>
  The directories the loop walks through, each with its parent and its own name, and the
  directory the loop ends in (the parent of the file).
\<close>

fun decoy_chain :: "string list \<Rightarrow> string \<Rightarrow> (string \<times> string \<times> string) list" where
  "decoy_chain [] current_dir = []"
| "decoy_chain (part # rest) current_dir =
     (if part = [] then decoy_chain rest current_dir
      else (current_dir, part, join_dir current_dir part)
             # decoy_chain rest (join_dir current_dir part))"

fun decoy_end :: "string list \<Rightarrow> string \<Rightarrow> string" where
  "decoy_end [] current_dir = current_dir"
| "decoy_end (part # rest) current_dir =
     (if part = [] then decoy_end rest current_dir
      else decoy_end rest (join_dir current_dir part))"

definition decoy_parent :: "string \<Rightarrow> string" where
  "decoy_parent path = decoy_end (butlast (decoy_parts path)) ''/''"

definition decoy_filename :: "string \<Rightarrow> string" where
  "decoy_filename path = last (decoy_parts path)"

definition decoy_ancestors :: "string \<Rightarrow> (string \<times> string \<times> string) list" where
  "decoy_ancestors path = decoy_chain (butlast (decoy_parts path)) ''/''"

text \<open>How often a name occurs in the listing of a directory (0 when there is no such directory).\<close>

definition listing_count :: "filesystem \<Rightarrow> string \<Rightarrow> string \<Rightarrow> nat" where
  "listing_count fsys dir name =
     (case fs fsys dir of None \<Rightarrow> 0 | Some nd \<Rightarrow> count_list (contents nd) name)"

text \<open>
  Two facts about the directory dictionary that hold of the initial filesystem and are kept
  by every deployment: the root is present, and no listing names an entry twice.
\<close>

definition listings_distinct :: "filesystem \<Rightarrow> bool" where
  "listings_distinct fsys \<longleftrightarrow> (\<forall>d nd. fs fsys d = Some nd \<longrightarrow> distinct (contents nd))"

text \<open>One directory dictionary extends another: every directory is kept with all its entries.\<close>

definition grows :: "(string \<rightharpoonup> node) \<Rightarrow> (string \<rightharpoonup> node) \<Rightarrow> bool" where
  "grows m m' \<longleftrightarrow>
     (\<forall>d nd. m d = Some nd \<longrightarrow> (\<exists>nd'. m' d = Some nd' \<and> set (contents nd) \<subseteq> set (contents nd')))"

section \<open>The command interpreter (\<^verbatim>\<open>deception.py\<close>, class \<^verbatim>\<open>CommandSimulator\<close>)\<close>

record simulator =
  sim_fs :: filesystem
  current_path :: string
  hostname :: string
  user :: string

definition CommandSimulator :: "filesystem \<Rightarrow> simulator" where
  "CommandSimulator filesystem =
     \<lparr>sim_fs = filesystem, current_path = ''/root'', hostname = ''server01'', user = ''root''\<rparr>"

definition ls_paths :: "string list \<Rightarrow> string list" where
  "ls_paths args = filter (\<lambda>arg. \<not> startswith arg ''-'') args"

definition ls_target :: "simulator \<Rightarrow> string list \<Rightarrow> string" where
  "ls_target sim args =
     (case ls_paths args of
        [] \<Rightarrow> current_path sim
      | p # _ \<Rightarrow> resolve_path (current_path sim) p)"

definition ls_shown :: "simulator \<Rightarrow> string list \<Rightarrow> string" where
  "ls_shown sim args = (case ls_paths args of [] \<Rightarrow> ls_target sim args | p # _ \<Rightarrow> p)"

definition cmd_ls :: "simulator \<Rightarrow> string list \<Rightarrow> string" where
  "cmd_ls sim args =
     (let target = ls_target sim args in
      (case list_dir (sim_fs sim) target of
         None \<Rightarrow>
           (if is_file (sim_fs sim) target then ls_shown sim args
            else ''ls: cannot access '' @ [CHR 0x27] @ ls_shown sim args @ [CHR 0x27]
                   @ '': No such file or directory'')
       | Some listing \<Rightarrow> join_sep ''  '' listing))"

definition cmd_cd :: "simulator \<Rightarrow> string list \<Rightarrow> string \<times> simulator" where
  "cmd_cd sim args =
     (case args of
        [] \<Rightarrow> ([], sim\<lparr>current_path := ''/root''\<rparr>)
      | a # _ \<Rightarrow>
          (let target = resolve_path (current_path sim) a in
           if is_dir (sim_fs sim) target then ([], sim\<lparr>current_path := target\<rparr>)
           else (''cd: '' @ a @ '': No such file or directory'', sim)))"

text \<open>
  \<^verbatim>\<open>_cmd_cat\<close> returns the stored content as it is, unless it \<^verbatim>\<open>is None\<close>; the result is
  a string exactly when the content is one.
\<close>

definition cmd_cat :: "simulator \<Rightarrow> string list \<Rightarrow> json" where
  "cmd_cat sim args =
     (case args of
        [] \<Rightarrow> JStr []
      | a # _ \<Rightarrow>
          (let target = resolve_path (current_path sim) a;
               content = get_file_content (sim_fs sim) target
           in if content \<noteq> JNull then content
              else if is_dir (sim_fs sim) target then JStr (''cat: '' @ a @ '': Is a directory'')
              else JStr (''cat: '' @ a @ '': No such file or directory'')))"

definition execute_command :: "simulator \<Rightarrow> string \<Rightarrow> json \<times> simulator" where
  "execute_command sim cmd_line =
     (case split_ws (strip_ws cmd_line) of
        [] \<Rightarrow> (JStr [], sim)
      | cmd # args \<Rightarrow>
          if cmd = ''ls'' then (JStr (cmd_ls sim args), sim)
          else if cmd = ''cd'' then (JStr (fst (cmd_cd sim args)), snd (cmd_cd sim args))
          else if cmd = ''pwd'' then (JStr (current_path sim), sim)
          else if cmd = ''cat'' then (cmd_cat sim args, sim)
          else if cmd = ''whoami'' then (JStr (user sim), sim)
          else if cmd = ''id'' then
            (JStr (''uid=0('' @ user sim @ '') gid=0('' @ user sim @ '') groups=0('' @ user sim
                     @ '')''), sim)
          else if cmd = ''uname'' then
            (if ''-a'' \<in> set args
             then (JStr ''Linux server01 5.4.0-42-generic #46-Ubuntu SMP Fri Jul 10 00:24:02 UTC 2020 x86_64 x86_64 x86_64 GNU/Linux'', sim)
             else (JStr ''Linux'', sim))
          else if cmd = ''exit'' then (JStr ''EXIT'', sim)
          else if cmd \<in> set [''wget'', ''curl'', ''apt'', ''apt-get'', ''yum'']
            then (JStr (cmd @ '': command not found''), sim)
          else (JStr (cmd @ '': command not found''), sim))"

section \<open>Blocklist state and authentication (\<^verbatim>\<open>honeypot.py\<close>)\<close>

text \<open>
  The module globals \<^verbatim>\<open>BLOCKED_IPS\<close>, \<^verbatim>\<open>GLOBAL_BLOCKED_IPS\<close> and \<^verbatim>\<open>LOG_QUEUE\<close> are
  one record that every operation takes and returns. The clock is a parameter: each
  operation receives the value its call of \<^verbatim>\<open>time.time()\<close> reads, an idealised real
  number of seconds. A queued log entry is the dictionary \<^verbatim>\<open>log_event\<close> builds, without
  its \<^verbatim>\<open>timestamp\<close> field.
\<close>

record block_entry =
  attempts :: int
  until :: real

record log_entry =
  event_type :: string
  entry_ip :: string
  username :: "string option"
  password :: "string option"
  details :: "string option"

record globals =
  BLOCKED_IPS :: "string \<rightharpoonup> block_entry"
  GLOBAL_BLOCKED_IPS :: "string set"
  LOG_QUEUE :: "log_entry list"

definition MAX_ATTEMPTS :: int where
  "MAX_ATTEMPTS = 5"

definition BLOCK_DURATION :: real where
  "BLOCK_DURATION = 60"

definition log_event ::
  "string \<Rightarrow> string \<Rightarrow> string option \<Rightarrow> string option \<Rightarrow> string option \<Rightarrow> globals \<Rightarrow> globals"
where
  "log_event ev ip usr pwd det g =
     g\<lparr>LOG_QUEUE := LOG_QUEUE g @
          [\<lparr>event_type = ev, entry_ip = ip, username = usr, password = pwd, details = det\<rparr>]\<rparr>"

definition is_blocked :: "string \<Rightarrow> real \<Rightarrow> globals \<Rightarrow> bool \<times> globals" where
  "is_blocked ip now g =
     (if ip \<in> GLOBAL_BLOCKED_IPS g then (True, g)
      else (case BLOCKED_IPS g ip of
              None \<Rightarrow> (False, g)
            | Some e \<Rightarrow>
                if attempts e \<ge> MAX_ATTEMPTS then
                  (if now < until e then (True, g)
                   else (False, g\<lparr>BLOCKED_IPS := (BLOCKED_IPS g)(ip := None)\<rparr>))
                else (False, g)))"

text \<open>
  The text of the BLOCK event is the f-string
  \<^verbatim>\<open>f"Blocked for {BLOCK_DURATION}s after {MAX_ATTEMPTS} attempts"\<close> with the two
  constants 60 and 5 printed.
\<close>

definition block_ip :: "string \<Rightarrow> real \<Rightarrow> globals \<Rightarrow> globals" where
  "block_ip ip now g =
     (let e0 = (case BLOCKED_IPS g ip of
                  None \<Rightarrow> \<lparr>attempts = 0, until = 0\<rparr>
                | Some e \<Rightarrow> e);
          e1 = e0\<lparr>attempts := attempts e0 + 1\<rparr>
      in if attempts e1 \<ge> MAX_ATTEMPTS
         then log_event ''BLOCK'' ip None None (Some ''Blocked for 60s after 5 attempts'')
                (g\<lparr>BLOCKED_IPS := (BLOCKED_IPS g)(ip \<mapsto> e1\<lparr>until := now + BLOCK_DURATION\<rparr>)\<rparr>)
         else g\<lparr>BLOCKED_IPS := (BLOCKED_IPS g)(ip \<mapsto> e1)\<rparr>)"

datatype auth_result = AUTH_SUCCESSFUL | AUTH_FAILED

definition is_bait_cred :: "string \<Rightarrow> string \<Rightarrow> bool" where
  "is_bait_cred usr pwd =
     ((usr = ''admin'' \<and> pwd = ''admin'') \<or> (usr = ''root'' \<and> pwd = ''1234''))"

text \<open>
  \<^verbatim>\<open>HoneypotServer.check_auth_password\<close> for the server object of client \<open>ip\<close>.
  \<open>ALLOW_ALL_CREDS\<close> is the module constant read from the environment; \<open>t_check\<close> is
  the clock read by \<^verbatim>\<open>is_blocked\<close> and \<open>t_block\<close> the one read by \<^verbatim>\<open>block_ip\<close>.
\<close>

definition check_auth_password ::
  "bool \<Rightarrow> string \<Rightarrow> string \<Rightarrow> string \<Rightarrow> real \<Rightarrow> real \<Rightarrow> globals \<Rightarrow> auth_result \<times> globals"
where
  "check_auth_password ALLOW_ALL_CREDS ip usr pwd t_check t_block g =
     (case is_blocked ip t_check g of
        (True, g1) \<Rightarrow> (AUTH_FAILED, g1)
      | (False, g1) \<Rightarrow>
          (let g2 = log_event ''LOGIN_ATTEMPT'' ip (Some usr) (Some pwd) None g1 in
           if ALLOW_ALL_CREDS \<or> is_bait_cred usr pwd then (AUTH_SUCCESSFUL, g2)
           else (AUTH_FAILED, block_ip ip t_block g2)))"

text \<open>
  A run of credential submissions from one address, each with the credentials and the two
  clock readings of its call; the results are collected in order.
\<close>

record submission =
  sub_user :: string
  sub_pass :: string
  sub_check :: real
  sub_block :: real

fun submit_all :: "bool \<Rightarrow> string \<Rightarrow> submission list \<Rightarrow> globals \<Rightarrow> auth_result list \<times> globals" where
  "submit_all allow ip [] g = ([], g)"
| "submit_all allow ip (s # ss) g =
     (case check_auth_password allow ip (sub_user s) (sub_pass s) (sub_check s) (sub_block s) g of
        (r, g1) \<Rightarrow> (case submit_all allow ip ss g1 of (rs, g2) \<Rightarrow> (r # rs, g2)))"

definition block_events :: "string \<Rightarrow> globals \<Rightarrow> log_entry list" where
  "block_events ip g = filter (\<lambda>e. event_type e = ''BLOCK'' \<and> entry_ip e = ip) (LOG_QUEUE g)"

definition login_events :: "string \<Rightarrow> globals \<Rightarrow> log_entry list" where
  "login_events ip g =
     filter (\<lambda>e. event_type e = ''LOGIN_ATTEMPT'' \<and> entry_ip e = ip) (LOG_QUEUE g)"

definition attempt_count :: "string \<Rightarrow> globals \<Rightarrow> int" where
  "attempt_count ip g = (case BLOCKED_IPS g ip of None \<Rightarrow> 0 | Some e \<Rightarrow> attempts e)"

section \<open>The command loop of the session gateway (\<^verbatim>\<open>honeypot.py\<close>, \<^verbatim>\<open>handle_connection\<close>)\<close>

subsection \<open>The decision oracle as seen by the gateway\<close>

text \<open>
  What \<^verbatim>\<open>requests.post\<close> does with one request: it raises \<^verbatim>\<open>requests.Timeout\<close>, it
  raises another exception (connection refused, DNS failure, ...), or it returns a
  response with a status code and a body; the body is \<open>None\<close> when it is not JSON, in
  which case \<^verbatim>\<open>.json()\<close> raises.
\<close>

datatype http_result =
    ReqTimeout
  | ReqException
  | HttpResponse int "json option"

text \<open>
  The request body \<^verbatim>\<open>eval_payload\<close>. Each element of \<open>history\<close> stands for the
  dictionary \<^verbatim>\<open>{"command": cmd}\<close>.
\<close>

record eval_payload =
  p_ip :: string
  p_command :: string
  p_history :: "string list"
  p_fs_path :: string
  p_fs_contents :: "string list"

text \<open>Python truthiness and \<^verbatim>\<open>dict.get\<close> with its default.\<close>

fun truthy :: "json \<Rightarrow> bool" where
  "truthy JNull = False"
| "truthy (JBool b) = b"
| "truthy (JNum x) = (x \<noteq> 0)"
| "truthy (JStr s) = (s \<noteq> [])"
| "truthy (JArr xs) = (xs \<noteq> [])"
| "truthy (JObj kvs) = (kvs \<noteq> [])"

definition dict_get :: "(string \<times> json) list \<Rightarrow> string \<Rightarrow> json \<Rightarrow> json" where
  "dict_get d k dflt = (case map_of d k of None \<Rightarrow> dflt | Some v \<Rightarrow> v)"

subsection \<open>Session state and the channel\<close>

text \<open>
  Two things the session depends on and the sources do not contain. \<open>chan_ok n\<close> says
  whether the call number \<open>n\<close> of \<^verbatim>\<open>chan.send\<close> in this session returns; otherwise it
  raises (the peer has closed the channel, or the write times out). \<open>py_str v\<close> is the
  text Python's \<^verbatim>\<open>str()\<close> gives for a value that is not a string, which an f-string
  prints.
\<close>

record runtime =
  chan_ok :: "nat \<Rightarrow> bool"
  py_str :: "json \<Rightarrow> string"

text \<open>
  The local variables of \<^verbatim>\<open>handle_connection\<close> inside the shell loop, together with
  the effects on the outside: the strings \<^verbatim>\<open>chan.send\<close> has delivered, the number of
  times it has been called, and the bodies posted to the oracle, all in order.
\<close>

record session =
  sess_sim :: simulator
  buf :: string
  session_history :: "string list"
  should_exit :: bool
  chan_sent :: "string list"
  send_count :: nat
  posted :: "eval_payload list"

definition chan_send :: "runtime \<Rightarrow> string \<Rightarrow> session \<Rightarrow> pyexn option \<times> session" where
  "chan_send rt msg ss =
     (if chan_ok rt (send_count ss)
      then (None, ss\<lparr>chan_sent := chan_sent ss @ [msg], send_count := Suc (send_count ss)\<rparr>)
      else (Some SocketError, ss\<lparr>send_count := Suc (send_count ss)\<rparr>))"

definition new_session :: "filesystem \<Rightarrow> session" where
  "new_session filesystem =
     \<lparr>sess_sim = CommandSimulator filesystem, buf = [], session_history = [],
      should_exit = False, chan_sent = [], send_count = 0, posted = []\<rparr>"

text \<open>
  What a piece of the shell loop does to the state: it returns (\<open>Inr\<close>), or an exception
  leaves the loop for the handlers at the end of \<^verbatim>\<open>handle_connection\<close>, which close the
  connection (\<open>Inl\<close>, with the state as it is at the raise).
\<close>

type_synonym result = "(pyexn \<times> globals \<times> session) + (globals \<times> session)"

definition result_state :: "result \<Rightarrow> globals \<times> session" where
  "result_state r = (case r of Inl (e, st) \<Rightarrow> st | Inr st \<Rightarrow> st)"

definition returns :: "result \<Rightarrow> bool" where
  "returns r = (case r of Inl x \<Rightarrow> False | Inr st \<Rightarrow> True)"

text \<open>A send outside the inner \<^verbatim>\<open>try\<close>: its exception leaves the loop.\<close>

definition send_or_raise :: "runtime \<Rightarrow> string \<Rightarrow> globals \<times> session \<Rightarrow> result" where
  "send_or_raise rt msg st =
     (case st of (g, ss) \<Rightarrow>
      (case chan_send rt msg ss of
         (Some e, ss') \<Rightarrow> Inl (e, g, ss')
       | (None, ss') \<Rightarrow> Inr (g, ss')))"

definition CR :: char where
  "CR = CHR 0x0D"

definition LF :: char where
  "LF = CHR 0x0A"

definition termination_notice :: string where
  "termination_notice = [CR, LF] @ ''Connection terminated by security policy.'' @ [CR, LF]"

definition prompt :: "simulator \<Rightarrow> string" where
  "prompt sim = user sim @ ''@'' @ hostname sim @ '':'' @ current_path sim @ ''# ''"

definition crlf :: "string \<Rightarrow> string" where
  "crlf output = concat (map (\<lambda>c. if c = LF then [CR, LF] else [c]) output)"

definition configured :: "string option \<Rightarrow> bool" where
  "configured CONTROLLER_URL = (case CONTROLLER_URL of None \<Rightarrow> False | Some u \<Rightarrow> u \<noteq> [])"

definition build_payload :: "string \<Rightarrow> string \<Rightarrow> session \<Rightarrow> eval_payload" where
  "build_payload ip cmd ss =
     \<lparr>p_ip = ip, p_command = cmd, p_history = session_history ss,
      p_fs_path = current_path (sess_sim ss),
      p_fs_contents =
        (case list_dir (sim_fs (sess_sim ss)) (current_path (sess_sim ss)) of
           None \<Rightarrow> []
         | Some names \<Rightarrow> names)\<rparr>"

subsection \<open>Pre-execution evaluation: the \<^verbatim>\<open>try\<close> block\<close>

datatype verdict = Proceed | Terminate

text \<open>
  The block from \<^verbatim>\<open>fs_context = {}\<close> to the two \<^verbatim>\<open>except\<close> clauses. Every exception
  raised inside is caught there and execution goes on after the block (\<open>Proceed\<close>);
  only the BLOCK branch, when it gets as far as its \<^verbatim>\<open>break\<close>, leaves the loop
  (\<open>Terminate\<close>).

  \<^item> \<^verbatim>\<open>decision.get\<close> and \<^verbatim>\<open>decoy.get\<close> raise \<^verbatim>\<open>AttributeError\<close> unless the value is
    a dictionary.
  \<^item> In the BLOCK branch \<^verbatim>\<open>chan.send\<close> comes first. If it raises, the exception is
    caught like the others: \<^verbatim>\<open>block_ip\<close>, the insertion into the global set and the
    \<^verbatim>\<open>break\<close> are skipped.
  \<^item> A decoy with a string path is deployed with whatever truthy content it has.
  \<^item> A decoy path that is not a string makes \<^verbatim>\<open>deploy_decoy\<close> raise (unhashable key,
    or no \<^verbatim>\<open>strip\<close> method) before any string key of the filesystem is touched.
  \<^item> A \<^verbatim>\<open>KeyError\<close> inside \<^verbatim>\<open>deploy_decoy\<close> is caught the same way; what it had
    written by then stays.
\<close>

definition pre_execution_eval ::
  "(eval_payload \<Rightarrow> http_result) \<Rightarrow> runtime \<Rightarrow> string \<Rightarrow> real \<Rightarrow> string
     \<Rightarrow> globals \<times> session \<Rightarrow> verdict \<times> globals \<times> session"
where
  "pre_execution_eval oracle rt ip now cmd st =
     (case st of (g, ss0) \<Rightarrow>
      (let payload = build_payload ip cmd ss0;
           ss = ss0\<lparr>posted := posted ss0 @ [payload]\<rparr>
       in (case oracle payload of
             ReqTimeout \<Rightarrow> (Proceed, g, ss)
           | ReqException \<Rightarrow> (Proceed, g, ss)
           | HttpResponse status body \<Rightarrow>
               if status \<noteq> 200 then (Proceed, g, ss)
               else (case body of
                  None \<Rightarrow> (Proceed, g, ss)
                | Some (JObj decision) \<Rightarrow>
                    if dict_get decision ''action'' (JStr ''ALLOW'') = JStr ''BLOCK'' then
                      (case chan_send rt termination_notice ss of
                         (Some e, ss1) \<Rightarrow> (Proceed, g, ss1)
                       | (None, ss1) \<Rightarrow>
                           (let g1 = block_ip ip now g;
                                g2 = g1\<lparr>GLOBAL_BLOCKED_IPS := insert ip (GLOBAL_BLOCKED_IPS g1)\<rparr>
                            in (Terminate, g2, ss1\<lparr>should_exit := True\<rparr>)))
                    else (case dict_get decision ''dynamic_decoy'' (JObj []) of
                       JObj decoy \<Rightarrow>
                         if truthy (dict_get decoy ''should_deploy'' JNull)
                            \<and> truthy (dict_get decoy ''path'' JNull)
                            \<and> truthy (dict_get decoy ''content'' JNull)
                         then (case dict_get decoy ''path'' JNull of
                            JStr path \<Rightarrow>
                              (let sim = sess_sim ss;
                                   fs' = snd (deploy_decoy path (dict_get decoy ''content'' JNull)
                                                (sim_fs sim))
                               in (Proceed, g, ss\<lparr>sess_sim := sim\<lparr>sim_fs := fs'\<rparr>\<rparr>))
                          | _ \<Rightarrow> (Proceed, g, ss))
                         else (Proceed, g, ss)
                     | _ \<Rightarrow> (Proceed, g, ss))
                | Some _ \<Rightarrow> (Proceed, g, ss)))))"

subsection \<open>One command, one character, one chunk of input\<close>

text \<open>
  From \<^verbatim>\<open>output = server.simulator.execute_command(cmd)\<close> to the send of the output.
  The simulator is updated in place before anything can raise. \<^verbatim>\<open>output[:50]\<close> is the
  first fifty characters of a string and the first fifty items of a list, and raises for
  every other value (\<^verbatim>\<open>TypeError\<close>; for a dictionary \<^verbatim>\<open>KeyError\<close> from Python 3.12 on).
  A list passes the slice, is logged as Python prints it, and fails at
  \<^verbatim>\<open>output.replace\<close>.
\<close>

definition cmd_exec_details :: "string \<Rightarrow> string \<Rightarrow> string" where
  "cmd_exec_details cmd excerpt = ''Cmd: '' @ cmd @ '', Out: '' @ excerpt @ ''...''"

definition run_interpreter ::
  "runtime \<Rightarrow> string \<Rightarrow> string \<Rightarrow> globals \<times> session \<Rightarrow> result"
where
  "run_interpreter rt ip cmd st =
     (case st of (g, ss) \<Rightarrow>
      (let output = fst (execute_command (sess_sim ss) cmd);
           ss1 = ss\<lparr>sess_sim := snd (execute_command (sess_sim ss) cmd)\<rparr>
       in (case output of
             JStr text \<Rightarrow>
               (let g1 = log_event ''CMD_EXEC'' ip None None
                           (Some (cmd_exec_details cmd (take 50 text))) g
                in if text = ''EXIT'' then Inr (g1, ss1\<lparr>should_exit := True\<rparr>)
                   else if crlf text \<noteq> []
                     then send_or_raise rt (crlf text @ [CR, LF]) (g1, ss1)
                   else Inr (g1, ss1))
           | JArr items \<Rightarrow>
               Inl (AttributeError,
                    log_event ''CMD_EXEC'' ip None None
                      (Some (cmd_exec_details cmd (py_str rt (JArr (take 50 items))))) g,
                    ss1)
           | _ \<Rightarrow> Inl (TypeError, g, ss1))))"

text \<open>
  The body of \<^verbatim>\<open>if cmd:\<close>: the command is appended to the history, evaluated when a
  controller URL is configured, and then executed, logged and printed.
\<close>

definition process_command ::
  "string option \<Rightarrow> (eval_payload \<Rightarrow> http_result) \<Rightarrow> runtime \<Rightarrow> string \<Rightarrow> real \<Rightarrow> string
     \<Rightarrow> globals \<times> session \<Rightarrow> result"
where
  "process_command CONTROLLER_URL oracle rt ip now cmd st =
     (case st of (g, ss) \<Rightarrow>
      (let ss0 = ss\<lparr>session_history := session_history ss @ [cmd]\<rparr> in
       if configured CONTROLLER_URL then
         (case pre_execution_eval oracle rt ip now cmd (g, ss0) of
            (Terminate, g1, ss1) \<Rightarrow> Inr (g1, ss1)
          | (Proceed, g1, ss1) \<Rightarrow> run_interpreter rt ip cmd (g1, ss1))
       else run_interpreter rt ip cmd (g, ss0)))"

text \<open>
  The body of \<^verbatim>\<open>for char in chars\<close>. A set \<open>should_exit\<close> after the command stands for
  the \<^verbatim>\<open>break\<close> that follows it in the source, which skips the reset of the buffer and
  the prompt. The buffer is changed before the echo is sent.
\<close>

definition handle_char ::
  "string option \<Rightarrow> (eval_payload \<Rightarrow> http_result) \<Rightarrow> runtime \<Rightarrow> string \<Rightarrow> real \<Rightarrow> char
     \<Rightarrow> globals \<times> session \<Rightarrow> result"
where
  "handle_char CONTROLLER_URL oracle rt ip now char st =
     (case st of (g, ss) \<Rightarrow>
      if char = CR \<or> char = LF then
        (case send_or_raise rt [CR, LF] (g, ss) of
           Inl x \<Rightarrow> Inl x
         | Inr (g1, ss1) \<Rightarrow>
             (let cmd = strip_ws (buf ss1) in
              (case (if cmd \<noteq> []
                     then process_command CONTROLLER_URL oracle rt ip now cmd (g1, ss1)
                     else Inr (g1, ss1)) of
                 Inl x \<Rightarrow> Inl x
               | Inr (g2, ss2) \<Rightarrow>
                   if should_exit ss2 then Inr (g2, ss2)
                   else send_or_raise rt (prompt (sess_sim ss2)) (g2, ss2\<lparr>buf := []\<rparr>))))
      else if char = CHR 0x7F \<or> char = CHR 0x08 then
        (if buf ss \<noteq> []
         then send_or_raise rt [CHR 0x08, CHR '' '', CHR 0x08] (g, ss\<lparr>buf := butlast (buf ss)\<rparr>)
         else Inr (g, ss))
      else send_or_raise rt [char] (g, ss\<lparr>buf := buf ss @ [char]\<rparr>))"

fun for_chars ::
  "string option \<Rightarrow> (eval_payload \<Rightarrow> http_result) \<Rightarrow> runtime \<Rightarrow> string \<Rightarrow> real \<Rightarrow> string
     \<Rightarrow> globals \<times> session \<Rightarrow> result"
where
  "for_chars url oracle rt ip now [] st = Inr st"
| "for_chars url oracle rt ip now (c # cs) st =
     (case handle_char url oracle rt ip now c st of
        Inl x \<Rightarrow> Inl x
      | Inr st' \<Rightarrow>
          if should_exit (snd st') then Inr st' else for_chars url oracle rt ip now cs st')"

text \<open>
  One received chunk, decoded: \<^verbatim>\<open>should_exit = False\<close>, then the loop over its
  characters. At most one \<^verbatim>\<open>block_ip\<close> runs per chunk (it is followed by the
  \<^verbatim>\<open>break\<close>), so one clock reading \<open>now\<close> is enough.
\<close>

definition handle_data ::
  "string option \<Rightarrow> (eval_payload \<Rightarrow> http_result) \<Rightarrow> runtime \<Rightarrow> string \<Rightarrow> real \<Rightarrow> string
     \<Rightarrow> globals \<times> session \<Rightarrow> result"
where
  "handle_data url oracle rt ip now chars st =
     (case st of (g, ss) \<Rightarrow> for_chars url oracle rt ip now chars (g, ss\<lparr>should_exit := False\<rparr>))"

text \<open>
  The shell loop \<^verbatim>\<open>while transport.is_active()\<close> over the chunks the channel delivers,
  each with the clock reading of a \<^verbatim>\<open>block_ip\<close> in it. An empty chunk is the
  \<^verbatim>\<open>if not data: break\<close>; the list ends when the transport is no longer active or the
  server stops.
\<close>

fun shell_loop ::
  "string option \<Rightarrow> (eval_payload \<Rightarrow> http_result) \<Rightarrow> runtime \<Rightarrow> string
     \<Rightarrow> (real \<times> string) list \<Rightarrow> globals \<times> session \<Rightarrow> result"
where
  "shell_loop url oracle rt ip [] st = Inr st"
| "shell_loop url oracle rt ip ((now, data) # rest) st =
     (if data = [] then Inr st
      else (case handle_data url oracle rt ip now data st of
              Inl x \<Rightarrow> Inl x
            | Inr st' \<Rightarrow>
                if should_exit (snd st') then Inr st' else shell_loop url oracle rt ip rest st'))"

text \<open>
  The exceptions of the \<^verbatim>\<open>try\<close> block that come from the oracle call itself: the
  request times out or fails, the response has an error status, its body is not JSON, or
  the JSON has not the shape the two \<^verbatim>\<open>.get\<close> chains need.
\<close>

fun oracle_call_fails :: "http_result \<Rightarrow> bool" where
  "oracle_call_fails ReqTimeout = True"
| "oracle_call_fails ReqException = True"
| "oracle_call_fails (HttpResponse status body) =
     (if status \<noteq> 200 then True
      else (case body of
              None \<Rightarrow> True
            | Some (JObj decision) \<Rightarrow>
                if dict_get decision ''action'' (JStr ''ALLOW'') = JStr ''BLOCK'' then False
                else (case dict_get decision ''dynamic_decoy'' (JObj []) of
                        JObj decoy \<Rightarrow> False
                      | _ \<Rightarrow> True)
            | Some _ \<Rightarrow> True))"

text \<open>
  \<^verbatim>\<open>llm_interface.py\<close>, \<^verbatim>\<open>generate_command_prompt\<close>: the oracle's own prompt keeps the
  last three entries of the history it was sent (\<^verbatim>\<open>history[-3:]\<close>).
\<close>

definition recent_history :: "string list \<Rightarrow> string list" where
  "recent_history history = drop (length history - 3) history"

text \<open>The histories of a session after its first, second, ... command.\<close>

definition whole_histories :: "string list \<Rightarrow> string list list" where
  "whole_histories history = map (\<lambda>k. take (Suc k) history) [0..<length history]"

text \<open>
  Every request posted so far carried the history of the session as it was at that
  command: the first request one command, the second two, and so on.
\<close>

definition history_sent_whole :: "session \<Rightarrow> bool" where
  "history_sent_whole ss \<longleftrightarrow> map p_history (posted ss) = whole_histories (session_history ss)"

section \<open>Test data\<close>

text \<open>Three oracles: one that never answers in time, one that allows everything without
  a decoy, one that blocks everything.\<close>

definition timeout_oracle :: "eval_payload \<Rightarrow> http_result" where
  "timeout_oracle payload = ReqTimeout"

definition allow_oracle :: "eval_payload \<Rightarrow> http_result" where
  "allow_oracle payload =
     HttpResponse 200
       (Some (JObj [(''action'', JStr ''ALLOW''),
                    (''dynamic_decoy'',
                     JObj [(''should_deploy'', JBool False), (''path'', JStr []),
                           (''content'', JStr [])])]))"

definition block_oracle :: "eval_payload \<Rightarrow> http_result" where
  "block_oracle payload = HttpResponse 200 (Some (JObj [(''action'', JStr ''BLOCK'')]))"

text \<open>
  Two channels: one on which every send returns, and one that the peer closes after nine
  sends (the echo of the eight characters of \<open>rm -rf /\<close> and of the line end).
\<close>

definition open_channel :: runtime where
  "open_channel = \<lparr>chan_ok = (\<lambda>n. True), py_str = (\<lambda>v. [])\<rparr>"

definition closing_channel :: runtime where
  "closing_channel = \<lparr>chan_ok = (\<lambda>n. n < 9), py_str = (\<lambda>v. [])\<rparr>"

definition empty_globals :: globals where
  "empty_globals = \<lparr>BLOCKED_IPS = Map.empty, GLOBAL_BLOCKED_IPS = {}, LOG_QUEUE = []\<rparr>"

text \<open>The entry \<^const>\<open>block_ip\<close> queues when the threshold is reached.\<close>

definition BLOCK_event :: "string \<Rightarrow> log_entry" where
  "BLOCK_event ip =
     \<lparr>event_type = ''BLOCK'', entry_ip = ip, username = None, password = None,
      details = Some ''Blocked for 60s after 5 attempts''\<rparr>"

definition LOGIN_ATTEMPT_event :: "string \<Rightarrow> string \<Rightarrow> string \<Rightarrow> log_entry" where
  "LOGIN_ATTEMPT_event ip usr pwd =
     \<lparr>event_type = ''LOGIN_ATTEMPT'', entry_ip = ip, username = Some usr, password = Some pwd,
      details = None\<rparr>"

text \<open>
  The five logins of \<^verbatim>\<open>tests/test_honeypot.py\<close>, one second apart, and the state they
  leave behind for the address \<open>9.9.9.9\<close>.
\<close>

definition five_bad_logins :: "submission list" where
  "five_bad_logins =
     [\<lparr>sub_user = ''admin'', sub_pass = ''password123'', sub_check = 1, sub_block = 1\<rparr>,
      \<lparr>sub_user = ''root'', sub_pass = ''toor'', sub_check = 2, sub_block = 2\<rparr>,
      \<lparr>sub_user = ''user'', sub_pass = ''123456'', sub_check = 3, sub_block = 3\<rparr>,
      \<lparr>sub_user = ''guest'', sub_pass = ''guest'', sub_check = 4, sub_block = 4\<rparr>,
      \<lparr>sub_user = ''test'', sub_pass = ''test'', sub_check = 5, sub_block = 5\<rparr>]"

definition after_five_bad_logins :: globals where
  "after_five_bad_logins = snd (submit_all False ''9.9.9.9'' five_bad_logins empty_globals)"

text \<open>
  Four bad logins, then a shell session in which the oracle blocks the first command at
  time 100 and the notice is delivered. The address is then in both block structures.
\<close>

definition after_oracle_block :: globals where
  "after_oracle_block =
     fst (result_state
       (handle_data (Some ''http://controller:5000/receive_log'') block_oracle open_channel
          ''9.9.9.9'' 100 (''rm -rf /'' @ [CR])
          (snd (submit_all False ''9.9.9.9'' (take 4 five_bad_logins) empty_globals),
           new_session FakeFilesystem)))"

text \<open>
  The same session from a fresh state, once with the notice delivered and once on the
  channel that is closed by the time the verdict arrives.
\<close>

definition block_delivered :: result where
  "block_delivered =
     handle_data (Some ''http://controller:5000/receive_log'') block_oracle open_channel
       ''9.9.9.9'' 100 (''rm -rf /'' @ [CR]) (empty_globals, new_session FakeFilesystem)"

definition block_on_closed_channel :: result where
  "block_on_closed_channel =
     handle_data (Some ''http://controller:5000/receive_log'') block_oracle closing_channel
       ''9.9.9.9'' 100 (''rm -rf /'' @ [CR]) (empty_globals, new_session FakeFilesystem)"

text \<open>The entry queued after a command whose output is the string \<open>text\<close>.\<close>

definition CMD_EXEC_event :: "string \<Rightarrow> string \<Rightarrow> string \<Rightarrow> log_entry" where
  "CMD_EXEC_event ip cmd text =
     \<lparr>event_type = ''CMD_EXEC'', entry_ip = ip, username = None, password = None,
      details = Some (cmd_exec_details cmd (take 50 text))\<rparr>"

definition cmd_exec_events :: "globals \<Rightarrow> log_entry list" where
  "cmd_exec_events g = filter (\<lambda>e. event_type e = ''CMD_EXEC'') (LOG_QUEUE g)"

text \<open>A session of five commands, received in one chunk, every one allowed.\<close>

definition five_command_session :: session where
  "five_command_session =
     snd (result_state
       (shell_loop (Some ''http://controller:5000/receive_log'') allow_oracle open_channel
          ''9.9.9.9''
          [(0, ''pwd'' @ [CR] @ ''id'' @ [CR] @ ''whoami'' @ [CR] @ ''ls'' @ [CR] @ ''uname'' @ [CR])]
          (empty_globals, new_session FakeFilesystem)))"

text \<open>
  A filesystem with one decoy under \<open>/tmp\<close> whose name is the text of an \<open>ls\<close> error, and
  a simulator on it that has changed to the root directory.
\<close>

definition ls_error_tmp :: string where
  "ls_error_tmp = ''ls: cannot access '' @ [CHR 0x27] @ ''tmp'' @ [CHR 0x27]
                    @ '': No such file or directory''"

definition decoy_named_as_error :: simulator where
  "decoy_named_as_error =
     snd (execute_command
            (CommandSimulator
               (snd (deploy_decoy (''/tmp/'' @ ls_error_tmp) (JStr ''x'') FakeFilesystem)))
            ''cd /'')"

section \<open>Properties of path resolution\<close>

lemma split_sep_nonempty: "split_sep c s \<noteq> []"
  by (induction s) (auto split: list.splits)

lemma split_sep_append:
  "split_sep c (xs @ c # ys) = split_sep c xs @ split_sep c ys"
proof (induction xs)
  case Nil
  show ?case by simp
next
  case (Cons x xs)
  show ?case
  proof (cases "x = c")
    case True
    with Cons show ?thesis by simp
  next
    case False
    obtain p ps where ps: "split_sep c xs = p # ps"
      using split_sep_nonempty [of c xs] by (cases "split_sep c xs") auto
    with False Cons show ?thesis by simp
  qed
qed

lemma normalize_parts_append:
  "normalize_parts (ps @ qs) = foldl norm_step (normalize_parts ps) qs"
  by (simp add: normalize_parts_def)

lemma norm_step_no_empty:
  "[] \<notin> set acc \<Longrightarrow> [] \<notin> set (norm_step acc part)"
  by (auto simp: norm_step_def dest: in_set_butlastD)

lemma foldl_norm_step_no_empty:
  "[] \<notin> set acc \<Longrightarrow> [] \<notin> set (foldl norm_step acc parts)"
  by (induction parts arbitrary: acc) (auto simp: norm_step_no_empty)

lemma normalize_parts_no_empty: "[] \<notin> set (normalize_parts parts)"
  by (simp add: normalize_parts_def foldl_norm_step_no_empty)

lemma join_sep_eq_Nil: "[] \<notin> set xs \<Longrightarrow> join_sep sep xs = [] \<Longrightarrow> xs = []"
  by (induction sep xs rule: join_sep.induct) auto

lemma startswith_slash_append:
  "new \<noteq> [] \<Longrightarrow> startswith (new @ s) ''/'' = startswith new ''/''"
  by (cases new) auto

lemma resolve_root_iff:
  "resolve_path cur new = ''/''
     \<longleftrightarrow> normalize_parts (split_sep CHR ''/'' (resolve_target cur new)) = []"
  using join_sep_eq_Nil [OF normalize_parts_no_empty]
  by (auto simp: resolve_path_def)

lemma dotdot_at_root: "normalize_parts ps = [] \<Longrightarrow> normalize_parts (ps @ [''..'']) = []"
  by (simp add: normalize_parts_append norm_step_def)

lemma resolve_dotdot_stays_at_root:
  assumes r: "resolve_path cur new = ''/''"
  shows "resolve_path cur (new @ ''/..'') = ''/''"
proof (cases "new = []")
  case True
  then show ?thesis
    by (simp add: resolve_path_def resolve_target_def normalize_parts_def norm_step_def)
next
  case False
  have t: "resolve_target cur (new @ ''/..'') = resolve_target cur new @ ''/..''"
    using False by (simp add: resolve_target_def startswith_slash_append)
  have "split_sep CHR ''/'' (resolve_target cur new @ CHR ''/'' # ''..'')
          = split_sep CHR ''/'' (resolve_target cur new) @ [''..'']"
    by (simp only: split_sep_append) simp
  then show ?thesis
    using r t dotdot_at_root unfolding resolve_root_iff by simp
qed

lemma resolve_path_examples:
  "resolve_path ''/'' ''..'' = ''/''"
  "resolve_path ''/var/log'' ''../www'' = ''/var/www''"
  by (simp_all add: resolve_path_def resolve_target_def normalize_parts_def norm_step_def)

text \<open>
  Claim C4. Path resolution never pops above the root. The two examples of the
  specification hold: resolving \<open>..\<close> from \<open>/\<close> gives \<open>/\<close>, and resolving \<open>../www\<close> from
  \<open>/var/log\<close> gives \<open>/var/www\<close>. In general a \<open>..\<close> segment met while no segment is left
  is skipped: in the normalisation loop a leading \<open>..\<close> changes nothing, and whenever a
  path resolves to the root, the same path followed by \<open>/..\<close> resolves to the root as
  well. The function is total, so no input makes it raise.
\<close>

theorem resolve_path_never_above_root:
  "resolve_path ''/'' ''..'' = ''/''
   \<and> resolve_path ''/var/log'' ''../www'' = ''/var/www''
   \<and> norm_step [] ''..'' = []
   \<and> (\<forall>parts. normalize_parts (''..'' # parts) = normalize_parts parts)
   \<and> (\<forall>cur new. resolve_path cur new = ''/'' \<longrightarrow> resolve_path cur (new @ ''/..'') = ''/'')"
proof -
  have a: "norm_step [] ''..'' = []"
    by (simp add: norm_step_def)
  have b: "\<forall>parts. normalize_parts (''..'' # parts) = normalize_parts parts"
    by (simp add: normalize_parts_def norm_step_def)
  have c: "\<forall>cur new. resolve_path cur new = ''/'' \<longrightarrow> resolve_path cur (new @ ''/..'') = ''/''"
    using resolve_dotdot_stays_at_root by blast
  from resolve_path_examples a b c show ?thesis by blast
qed

theorem resolve_path_never_above_root_witness:
  "resolve_path ''/etc'' ''..'' = ''/'' \<and> resolve_path ''/etc'' ''../..'' = ''/''"
proof -
  have h: "resolve_path ''/etc'' ''..'' = ''/''"
    by (simp add: resolve_path_def resolve_target_def normalize_parts_def norm_step_def)
  from resolve_path_never_above_root
  have "resolve_path ''/etc'' ''..'' = ''/'' \<longrightarrow> resolve_path ''/etc'' (''..'' @ ''/..'') = ''/''"
    by blast
  with h show ?thesis by simp
qed

section \<open>Properties of the \<^verbatim>\<open>ls\<close> command\<close>

lemma list_dir_None_iff: "list_dir fsys path = None \<longleftrightarrow> \<not> is_dir fsys path"
  by (auto simp: list_dir_def is_dir_def split: option.splits)

lemma list_dir_Some_dir: "list_dir fsys path = Some names \<Longrightarrow> is_dir fsys path"
  by (auto simp: list_dir_def is_dir_def split: option.splits if_splits)

lemma not_own_ls_error:
  "p \<noteq> ''ls: cannot access '' @ [CHR 0x27] @ p @ [CHR 0x27] @ '': No such file or directory''"
proof
  assume "p = ''ls: cannot access '' @ [CHR 0x27] @ p @ [CHR 0x27] @ '': No such file or directory''"
  then have "length p =
      length (''ls: cannot access '' @ [CHR 0x27] @ p @ [CHR 0x27] @ '': No such file or directory'')"
    by simp
  then show False by simp
qed

text \<open>
  Claim C10, as stated, fails in both halves. The error text is not returned only for a
  path that is neither a directory nor a file: with one decoy under \<open>/tmp\<close> whose name is
  that text, \<open>ls tmp\<close> from the root directory returns it although \<open>/tmp\<close> is a
  directory, because a listing is returned as it is. And not every argument that resolves
  to a file is returned: in \<open>ls /etc /etc/passwd\<close> the second argument resolves to a file
  that is not a directory, and the result is the listing of \<open>/etc\<close>, since only the first
  argument that is not a flag is looked at.
\<close>

theorem ls_error_only_when_neither_counterexample:
  "current_path decoy_named_as_error = ''/''
   \<and> is_dir (sim_fs decoy_named_as_error) (resolve_path ''/'' ''tmp'')
   \<and> cmd_ls decoy_named_as_error [''tmp'']
        = ''ls: cannot access '' @ [CHR 0x27] @ ''tmp'' @ [CHR 0x27] @ '': No such file or directory''
   \<and> is_file FakeFilesystem (resolve_path ''/root'' ''/etc/passwd'')
   \<and> \<not> is_dir FakeFilesystem (resolve_path ''/root'' ''/etc/passwd'')
   \<and> current_path (CommandSimulator FakeFilesystem) = ''/root''
   \<and> cmd_ls (CommandSimulator FakeFilesystem) [''/etc'', ''/etc/passwd'']
        = ''passwd  shadow  hostname  hosts''"
  by code_simp

text \<open>
  Claim C10, amended. Let the target of \<open>ls\<close> be the resolved first argument that does not
  start with \<open>-\<close> (the current directory when there is none). If that argument resolves to
  a file that is not a directory, \<open>ls\<close> returns the argument as it was typed, which is not
  the error message. If the target is neither a directory nor a file, \<open>ls\<close> returns the
  "No such file or directory" message. If it is a directory, \<open>ls\<close> returns its listing
  joined by two spaces. So the message text is returned only when the target is neither a
  directory nor a file, or is a directory whose joined listing is that very text.
\<close>

theorem ls_first_path_argument:
  "(\<forall>p rest. ls_paths args = p # rest
        \<and> is_file (sim_fs sim) (resolve_path (current_path sim) p)
        \<and> \<not> is_dir (sim_fs sim) (resolve_path (current_path sim) p)
      \<longrightarrow> cmd_ls sim args = p
          \<and> cmd_ls sim args \<noteq> ''ls: cannot access '' @ [CHR 0x27] @ p @ [CHR 0x27]
                                  @ '': No such file or directory'')
   \<and> (\<not> is_dir (sim_fs sim) (ls_target sim args) \<and> \<not> is_file (sim_fs sim) (ls_target sim args)
      \<longrightarrow> cmd_ls sim args = ''ls: cannot access '' @ [CHR 0x27] @ ls_shown sim args @ [CHR 0x27]
                                @ '': No such file or directory'')
   \<and> (\<forall>names. list_dir (sim_fs sim) (ls_target sim args) = Some names
      \<longrightarrow> cmd_ls sim args = join_sep ''  '' names)
   \<and> (is_dir (sim_fs sim) (ls_target sim args)
        \<longleftrightarrow> list_dir (sim_fs sim) (ls_target sim args) \<noteq> None)
   \<and> (cmd_ls sim args = ''ls: cannot access '' @ [CHR 0x27] @ ls_shown sim args @ [CHR 0x27]
                            @ '': No such file or directory''
      \<longrightarrow> (\<not> is_dir (sim_fs sim) (ls_target sim args)
            \<and> \<not> is_file (sim_fs sim) (ls_target sim args))
          \<or> (\<exists>names. list_dir (sim_fs sim) (ls_target sim args) = Some names
                \<and> join_sep ''  '' names
                     = ''ls: cannot access '' @ [CHR 0x27] @ ls_shown sim args @ [CHR 0x27]
                         @ '': No such file or directory''))"
  using not_own_ls_error
  by (auto simp: cmd_ls_def ls_target_def ls_shown_def list_dir_None_iff Let_def
           split: option.splits list.splits dest: list_dir_Some_dir)

theorem ls_first_path_argument_witness:
  "ls_paths [''-la'', ''/etc/passwd''] = [''/etc/passwd'']
   \<and> is_file FakeFilesystem ''/etc/passwd'' \<and> \<not> is_dir FakeFilesystem ''/etc/passwd''
   \<and> cmd_ls (CommandSimulator FakeFilesystem) [''-la'', ''/etc/passwd''] = ''/etc/passwd''"
proof -
  let ?sim = "CommandSimulator FakeFilesystem"
  have r: "resolve_path (current_path ?sim) ''/etc/passwd'' = ''/etc/passwd''"
    by (simp add: CommandSimulator_def resolve_path_def resolve_target_def normalize_parts_def
          norm_step_def)
  have p: "ls_paths [''-la'', ''/etc/passwd''] = [''/etc/passwd'']"
    by (simp add: ls_paths_def)
  have f: "is_file FakeFilesystem ''/etc/passwd''"
    by (simp add: is_file_def FakeFilesystem_def init_file_alist_def)
  have d: "\<not> is_dir FakeFilesystem ''/etc/passwd''"
    by (simp add: is_dir_def FakeFilesystem_def init_fs_alist_def)
  have s: "sim_fs ?sim = FakeFilesystem"
    by (simp add: CommandSimulator_def)
  from ls_first_path_argument [of "[''-la'', ''/etc/passwd'']" ?sim, THEN conjunct1] p f d r s
  have "cmd_ls ?sim [''-la'', ''/etc/passwd''] = ''/etc/passwd''"
    by simp
  with p f d show ?thesis by simp
qed

section \<open>Properties of the blocklist and of authentication\<close>

lemma globally_blocked: "ip \<in> GLOBAL_BLOCKED_IPS g \<Longrightarrow> is_blocked ip t g = (True, g)"
  by (simp add: is_blocked_def)

lemma not_blocked_below_threshold:
  "ip \<notin> GLOBAL_BLOCKED_IPS g \<Longrightarrow> attempt_count ip g < MAX_ATTEMPTS
     \<Longrightarrow> is_blocked ip t g = (False, g)"
  by (auto simp: is_blocked_def attempt_count_def split: option.splits)

lemma blocked_while_unexpired:
  "BLOCKED_IPS g ip = Some e \<Longrightarrow> attempts e \<ge> MAX_ATTEMPTS \<Longrightarrow> t < until e
     \<Longrightarrow> is_blocked ip t g = (True, g)"
  by (auto simp: is_blocked_def)

lemma expired_is_cleared:
  "ip \<notin> GLOBAL_BLOCKED_IPS g \<Longrightarrow> BLOCKED_IPS g ip = Some e \<Longrightarrow> attempts e \<ge> MAX_ATTEMPTS
     \<Longrightarrow> until e \<le> t
     \<Longrightarrow> is_blocked ip t g = (False, g\<lparr>BLOCKED_IPS := (BLOCKED_IPS g)(ip := None)\<rparr>)"
  by (auto simp: is_blocked_def)

lemma failed_attempt_below_threshold:
  assumes "ip \<notin> GLOBAL_BLOCKED_IPS g" and "attempt_count ip g = n" and "n + 1 < MAX_ATTEMPTS"
    and "\<not> is_bait_cred usr pwd"
  shows "fst (check_auth_password False ip usr pwd t t' g) = AUTH_FAILED"
    and "attempt_count ip (snd (check_auth_password False ip usr pwd t t' g)) = n + 1"
    and "GLOBAL_BLOCKED_IPS (snd (check_auth_password False ip usr pwd t t' g))
           = GLOBAL_BLOCKED_IPS g"
    and "block_events ip (snd (check_auth_password False ip usr pwd t t' g)) = block_events ip g"
  using assms
  by (auto simp: check_auth_password_def is_blocked_def block_ip_def log_event_def
        attempt_count_def block_events_def MAX_ATTEMPTS_def Let_def split: option.splits)

lemma failed_attempt_reaching_threshold:
  assumes "ip \<notin> GLOBAL_BLOCKED_IPS g" and "attempt_count ip g = MAX_ATTEMPTS - 1"
    and "\<not> is_bait_cred usr pwd"
  shows "fst (check_auth_password False ip usr pwd t t' g) = AUTH_FAILED"
    and "BLOCKED_IPS (snd (check_auth_password False ip usr pwd t t' g)) ip
           = Some \<lparr>attempts = MAX_ATTEMPTS, until = t' + BLOCK_DURATION\<rparr>"
    and "GLOBAL_BLOCKED_IPS (snd (check_auth_password False ip usr pwd t t' g))
           = GLOBAL_BLOCKED_IPS g"
    and "block_events ip (snd (check_auth_password False ip usr pwd t t' g))
           = block_events ip g @ [BLOCK_event ip]"
  using assms
  by (auto simp: check_auth_password_def is_blocked_def block_ip_def log_event_def
        attempt_count_def block_events_def MAX_ATTEMPTS_def Let_def BLOCK_event_def
        split: option.splits)

lemma submit_all_below_threshold:
  assumes "ip \<notin> GLOBAL_BLOCKED_IPS g" and "attempt_count ip g = n"
    and "n + int (length subs) < MAX_ATTEMPTS"
    and "\<forall>s\<in>set subs. \<not> is_bait_cred (sub_user s) (sub_pass s)"
  shows "fst (submit_all False ip subs g) = replicate (length subs) AUTH_FAILED
       \<and> attempt_count ip (snd (submit_all False ip subs g)) = n + int (length subs)
       \<and> GLOBAL_BLOCKED_IPS (snd (submit_all False ip subs g)) = GLOBAL_BLOCKED_IPS g
       \<and> block_events ip (snd (submit_all False ip subs g)) = block_events ip g"
  using assms
proof (induction subs arbitrary: g n)
  case Nil
  then show ?case by simp
next
  case (Cons s subs)
  let ?r = "check_auth_password False ip (sub_user s) (sub_pass s) (sub_check s) (sub_block s) g"
  have lt: "n + 1 < MAX_ATTEMPTS" using Cons.prems(3) by simp
  have nb: "\<not> is_bait_cred (sub_user s) (sub_pass s)" using Cons.prems(4) by simp
  note st = failed_attempt_below_threshold [OF Cons.prems(1) Cons.prems(2) lt nb,
      of "sub_check s" "sub_block s"]
  have ih: "fst (submit_all False ip subs (snd ?r)) = replicate (length subs) AUTH_FAILED
       \<and> attempt_count ip (snd (submit_all False ip subs (snd ?r))) = (n + 1) + int (length subs)
       \<and> GLOBAL_BLOCKED_IPS (snd (submit_all False ip subs (snd ?r))) = GLOBAL_BLOCKED_IPS (snd ?r)
       \<and> block_events ip (snd (submit_all False ip subs (snd ?r))) = block_events ip (snd ?r)"
    using Cons.prems st by (intro Cons.IH) auto
  show ?case
    using ih st by (simp add: split_beta)
qed

lemma submit_all_append:
  "submit_all allow ip (xs @ ys) g =
     (fst (submit_all allow ip xs g) @ fst (submit_all allow ip ys (snd (submit_all allow ip xs g))),
      snd (submit_all allow ip ys (snd (submit_all allow ip xs g))))"
  by (induction xs arbitrary: g) (auto simp: split_beta)

text \<open>
  Five recorded failures in a row, starting from an address with no attempt on record
  that is not on the global list.
\<close>

lemma five_failures:
  assumes glob: "ip \<notin> GLOBAL_BLOCKED_IPS g" and fresh: "attempt_count ip g = 0"
    and len: "length subs = 5"
    and nb: "\<forall>s\<in>set subs. \<not> is_bait_cred (sub_user s) (sub_pass s)"
  shows "fst (submit_all False ip subs g) = replicate 5 AUTH_FAILED"
    and "BLOCKED_IPS (snd (submit_all False ip subs g)) ip
           = Some \<lparr>attempts = 5, until = sub_block (last subs) + BLOCK_DURATION\<rparr>"
    and "GLOBAL_BLOCKED_IPS (snd (submit_all False ip subs g)) = GLOBAL_BLOCKED_IPS g"
    and "block_events ip (snd (submit_all False ip subs g)) = block_events ip g @ [BLOCK_event ip]"
    and "block_events ip (snd (submit_all False ip (butlast subs) g)) = block_events ip g"
    and "is_blocked ip t (snd (submit_all False ip (butlast subs) g))
           = (False, snd (submit_all False ip (butlast subs) g))"
proof -
  from len have ne: "subs \<noteq> []" by auto
  then have sp: "subs = butlast subs @ [last subs]" by simp
  let ?g4 = "snd (submit_all False ip (butlast subs) g)"
  have nb4: "\<forall>s\<in>set (butlast subs). \<not> is_bait_cred (sub_user s) (sub_pass s)"
    using nb by (auto dest: in_set_butlastD)
  have l4: "0 + int (length (butlast subs)) < MAX_ATTEMPTS"
    using len by (simp add: MAX_ATTEMPTS_def)
  note four = submit_all_below_threshold [OF glob fresh l4 nb4]
  have g4: "ip \<notin> GLOBAL_BLOCKED_IPS ?g4" using four glob by simp
  have c4: "attempt_count ip ?g4 = MAX_ATTEMPTS - 1"
    using four len by (simp add: MAX_ATTEMPTS_def)
  have nbl: "\<not> is_bait_cred (sub_user (last subs)) (sub_pass (last subs))"
    using nb ne by simp
  note fifth = failed_attempt_reaching_threshold [OF g4 c4 nbl,
      of "sub_check (last subs)" "sub_block (last subs)"]
  have run: "submit_all False ip subs g =
     (fst (submit_all False ip (butlast subs) g) @ fst (submit_all False ip [last subs] ?g4),
      snd (submit_all False ip [last subs] ?g4))"
    using submit_all_append [of False ip "butlast subs" "[last subs]" g] sp by simp
  have rep: "replicate 5 AUTH_FAILED = replicate 4 AUTH_FAILED @ [AUTH_FAILED]"
    by (simp add: numeral_eq_Suc)
  show "fst (submit_all False ip subs g) = replicate 5 AUTH_FAILED"
    using run four fifth(1) len rep by (simp add: split_beta)
  show "BLOCKED_IPS (snd (submit_all False ip subs g)) ip
           = Some \<lparr>attempts = 5, until = sub_block (last subs) + BLOCK_DURATION\<rparr>"
    using run fifth(2) by (simp add: split_beta MAX_ATTEMPTS_def)
  show "GLOBAL_BLOCKED_IPS (snd (submit_all False ip subs g)) = GLOBAL_BLOCKED_IPS g"
    using run fifth(3) four by (simp add: split_beta)
  show "block_events ip (snd (submit_all False ip subs g)) = block_events ip g @ [BLOCK_event ip]"
    using run fifth(4) four by (simp add: split_beta)
  show "block_events ip ?g4 = block_events ip g" using four by simp
  show "is_blocked ip t ?g4 = (False, ?g4)"
    using not_blocked_below_threshold [OF g4] c4 by simp
qed

lemma five_failures_blocked_window:
  assumes glob: "ip \<notin> GLOBAL_BLOCKED_IPS g" and fresh: "attempt_count ip g = 0"
    and len: "length subs = 5"
    and nb: "\<forall>s\<in>set subs. \<not> is_bait_cred (sub_user s) (sub_pass s)"
  shows "t < sub_block (last subs) + BLOCK_DURATION
           \<Longrightarrow> is_blocked ip t (snd (submit_all False ip subs g))
                 = (True, snd (submit_all False ip subs g))"
    and "sub_block (last subs) + BLOCK_DURATION \<le> t
           \<Longrightarrow> fst (is_blocked ip t (snd (submit_all False ip subs g))) = False"
proof -
  note f = five_failures [OF glob fresh len nb]
  let ?g5 = "snd (submit_all False ip subs g)"
  have g5: "ip \<notin> GLOBAL_BLOCKED_IPS ?g5" using f(3) glob by simp
  show "t < sub_block (last subs) + BLOCK_DURATION \<Longrightarrow> is_blocked ip t ?g5 = (True, ?g5)"
    using blocked_while_unexpired [OF f(2)] by (simp add: MAX_ATTEMPTS_def)
  show "sub_block (last subs) + BLOCK_DURATION \<le> t \<Longrightarrow> fst (is_blocked ip t ?g5) = False"
    using expired_is_cleared [OF g5 f(2)] by (simp add: MAX_ATTEMPTS_def)
qed

lemma five_bad_logins_facts:
  "length five_bad_logins = 5"
  "\<forall>s\<in>set five_bad_logins. \<not> is_bait_cred (sub_user s) (sub_pass s)"
  "sub_block (last five_bad_logins) = 5"
  "''9.9.9.9'' \<notin> GLOBAL_BLOCKED_IPS empty_globals"
  "attempt_count ''9.9.9.9'' empty_globals = 0"
  "block_events ''9.9.9.9'' empty_globals = []"
  by (simp_all add: five_bad_logins_def is_bait_cred_def empty_globals_def attempt_count_def
        block_events_def)

text \<open>
  Claim C2. Take an address that is not on the global list and has no failed attempt on
  record, and five credential submissions from it that are not bait credentials, with the
  permissive flag off. All five fail. After the first four the address is not blocked and
  no BLOCK event has been queued; the fifth queues exactly one BLOCK event for the address.
  From then on \<open>is_blocked\<close> answers true, and leaves the state as it is, at every clock
  value before the fifth attempt's time plus \<open>BLOCK_DURATION\<close> (60 seconds), and answers
  false at every clock value from that instant on.
\<close>

theorem five_failed_attempts_block_the_ip:
  assumes "ip \<notin> GLOBAL_BLOCKED_IPS g" and "attempt_count ip g = 0"
    and "length subs = 5"
    and "\<forall>s\<in>set subs. \<not> is_bait_cred (sub_user s) (sub_pass s)"
  shows "fst (submit_all False ip subs g) = replicate 5 AUTH_FAILED
    \<and> (\<forall>t. fst (is_blocked ip t (snd (submit_all False ip (butlast subs) g))) = False)
    \<and> block_events ip (snd (submit_all False ip (butlast subs) g)) = block_events ip g
    \<and> block_events ip (snd (submit_all False ip subs g)) = block_events ip g @ [BLOCK_event ip]
    \<and> (\<forall>t. t < sub_block (last subs) + BLOCK_DURATION \<longrightarrow>
            is_blocked ip t (snd (submit_all False ip subs g))
              = (True, snd (submit_all False ip subs g)))
    \<and> (\<forall>t. sub_block (last subs) + BLOCK_DURATION \<le> t \<longrightarrow>
            fst (is_blocked ip t (snd (submit_all False ip subs g))) = False)"
  using five_failures [OF assms] five_failures_blocked_window [OF assms]
  by simp

theorem five_failed_attempts_block_the_ip_witness:
  "fst (submit_all False ''9.9.9.9'' five_bad_logins empty_globals) = replicate 5 AUTH_FAILED
   \<and> block_events ''9.9.9.9'' after_five_bad_logins = [BLOCK_event ''9.9.9.9'']
   \<and> is_blocked ''9.9.9.9'' 64 after_five_bad_logins = (True, after_five_bad_logins)
   \<and> fst (is_blocked ''9.9.9.9'' 65 after_five_bad_logins) = False"
proof -
  note f = five_bad_logins_facts
  note w = five_failed_attempts_block_the_ip [OF f(4) f(5) f(1) f(2)]
  have a: "(64::real) < sub_block (last five_bad_logins) + BLOCK_DURATION"
    by (simp add: f(3) BLOCK_DURATION_def)
  have b: "sub_block (last five_bad_logins) + BLOCK_DURATION \<le> (65::real)"
    by (simp add: f(3) BLOCK_DURATION_def)
  from w a b f(6) show ?thesis
    unfolding after_five_bad_logins_def by simp
qed

text \<open>
  Claim C6. For an address that \<open>is_blocked\<close> does not report as blocked, each of the two
  bait pairs, admin/admin and root/1234, authenticates successfully whether the permissive
  flag is on or off; the attempt is logged and the attempt counter is left alone.
\<close>

theorem bait_credentials_always_accepted:
  assumes "\<not> fst (is_blocked ip t g)"
    and "(usr = ''admin'' \<and> pwd = ''admin'') \<or> (usr = ''root'' \<and> pwd = ''1234'')"
  shows "fst (check_auth_password True ip usr pwd t t' g) = AUTH_SUCCESSFUL
    \<and> fst (check_auth_password False ip usr pwd t t' g) = AUTH_SUCCESSFUL
    \<and> BLOCKED_IPS (snd (check_auth_password allow ip usr pwd t t' g))
        = BLOCKED_IPS (snd (is_blocked ip t g))
    \<and> LOG_QUEUE (snd (check_auth_password allow ip usr pwd t t' g))
        = LOG_QUEUE g @ [LOGIN_ATTEMPT_event ip usr pwd]"
proof -
  obtain g1 where g1: "is_blocked ip t g = (False, g1)"
    using assms(1) by (cases "is_blocked ip t g") auto
  have q: "LOG_QUEUE g1 = LOG_QUEUE g"
    using g1 by (auto simp: is_blocked_def split: if_splits option.splits)
  have bait: "is_bait_cred usr pwd"
    using assms(2) by (simp add: is_bait_cred_def)
  show ?thesis
    using g1 q bait
    by (simp add: check_auth_password_def log_event_def LOGIN_ATTEMPT_event_def Let_def)
qed

theorem bait_credentials_always_accepted_witness:
  "\<not> fst (is_blocked ''9.9.9.9'' 1 empty_globals)
   \<and> fst (check_auth_password True ''9.9.9.9'' ''root'' ''1234'' 1 1 empty_globals) = AUTH_SUCCESSFUL
   \<and> fst (check_auth_password False ''9.9.9.9'' ''root'' ''1234'' 1 1 empty_globals) = AUTH_SUCCESSFUL"
proof -
  have h: "\<not> fst (is_blocked ''9.9.9.9'' 1 empty_globals)"
    by (simp add: is_blocked_def empty_globals_def)
  have c: "(''root'' = ''admin'' \<and> ''1234'' = ''admin'') \<or> (''root'' = ''root'' \<and> ''1234'' = ''1234'')"
    by simp
  from bait_credentials_always_accepted [OF h c] h show ?thesis by simp
qed

text \<open>
  Claim C7. When \<open>is_blocked\<close> reports the address as blocked at a credential submission,
  authentication fails and the whole state is returned unchanged: the block map with its
  attempt counters, the global set and the log queue. So no attempt is counted and no
  LOGIN_ATTEMPT event is queued, whatever the credentials and the permissive flag.
\<close>

theorem blocked_submission_changes_nothing:
  assumes "fst (is_blocked ip t g)"
  shows "check_auth_password allow ip usr pwd t t' g = (AUTH_FAILED, g)
    \<and> attempt_count ip (snd (check_auth_password allow ip usr pwd t t' g)) = attempt_count ip g
    \<and> login_events ip (snd (check_auth_password allow ip usr pwd t t' g)) = login_events ip g"
proof -
  have "check_auth_password allow ip usr pwd t t' g = (AUTH_FAILED, g)"
    using assms
    by (auto simp: check_auth_password_def is_blocked_def split: if_splits option.splits)
  then show ?thesis by simp
qed

theorem blocked_submission_changes_nothing_witness:
  "fst (is_blocked ''9.9.9.9'' 30 after_five_bad_logins)
   \<and> check_auth_password True ''9.9.9.9'' ''admin'' ''admin'' 30 30 after_five_bad_logins
       = (AUTH_FAILED, after_five_bad_logins)"
proof -
  note f = five_bad_logins_facts
  have "(30::real) < sub_block (last five_bad_logins) + BLOCK_DURATION"
    by (simp add: f(3) BLOCK_DURATION_def)
  then have h: "fst (is_blocked ''9.9.9.9'' 30 after_five_bad_logins)"
    using five_failures_blocked_window(1) [OF f(4) f(5) f(1) f(2), of 30]
    unfolding after_five_bad_logins_def by simp
  from blocked_submission_changes_nothing [OF h] h show ?thesis by simp
qed

lemma after_oracle_block_value:
  "BLOCKED_IPS after_oracle_block ''9.9.9.9'' = Some \<lparr>attempts = 5, until = 160\<rparr>"
  "''9.9.9.9'' \<in> GLOBAL_BLOCKED_IPS after_oracle_block"
  unfolding after_oracle_block_def
  by code_simp+

lemma after_five_bad_logins_value:
  "BLOCKED_IPS after_five_bad_logins ''9.9.9.9'' = Some \<lparr>attempts = 5, until = 65\<rparr>"
  "''9.9.9.9'' \<notin> GLOBAL_BLOCKED_IPS after_five_bad_logins"
  using five_failures(2,3) [OF five_bad_logins_facts(4,5,1,2)] five_bad_logins_facts(3,4)
  unfolding after_five_bad_logins_def
  by (simp_all add: BLOCK_DURATION_def)

text \<open>
  Claim C9, as stated, fails for an address that is also on the global list. Four bad
  logins followed by a BLOCK verdict of the oracle at time 100 leave the address with five
  attempts and a local block until 160, and put it on the global list. At time 1000 the
  local block has expired, yet \<open>is_blocked\<close> answers true and the local entry is still
  there: the global list is consulted first.
\<close>

theorem expired_entry_on_global_list_counterexample:
  "BLOCKED_IPS after_oracle_block ''9.9.9.9'' = Some \<lparr>attempts = 5, until = 160\<rparr>
   \<and> MAX_ATTEMPTS \<le> 5 \<and> (160::real) \<le> 1000
   \<and> fst (is_blocked ''9.9.9.9'' 1000 after_oracle_block) = True
   \<and> BLOCKED_IPS (snd (is_blocked ''9.9.9.9'' 1000 after_oracle_block)) ''9.9.9.9''
        = Some \<lparr>attempts = 5, until = 160\<rparr>"
  using after_oracle_block_value globally_blocked [of "''9.9.9.9''" after_oracle_block 1000]
  by (simp add: MAX_ATTEMPTS_def)

text \<open>
  Claim C9, amended. For an address that is not on the global list and whose local entry
  has reached the threshold and has a \<open>until\<close> that is not in the future, \<open>is_blocked\<close>
  answers false and removes the whole local entry, so the attempt counter is back at zero.
  Five further failed submissions are then needed for a new block: after four of them the
  address is still not blocked and no BLOCK event has been queued, and the fifth blocks it
  for \<open>BLOCK_DURATION\<close> and queues one BLOCK event.
\<close>

theorem expired_local_block_resets_the_counter:
  assumes "ip \<notin> GLOBAL_BLOCKED_IPS g" and "BLOCKED_IPS g ip = Some e"
    and "MAX_ATTEMPTS \<le> attempts e" and "until e \<le> now"
    and "length subs = 5"
    and "\<forall>s\<in>set subs. \<not> is_bait_cred (sub_user s) (sub_pass s)"
  shows "is_blocked ip now g = (False, g\<lparr>BLOCKED_IPS := (BLOCKED_IPS g)(ip := None)\<rparr>)
    \<and> BLOCKED_IPS (snd (is_blocked ip now g)) ip = None
    \<and> attempt_count ip (snd (is_blocked ip now g)) = 0
    \<and> (\<forall>t. fst (is_blocked ip t
               (snd (submit_all False ip (butlast subs) (snd (is_blocked ip now g))))) = False)
    \<and> block_events ip (snd (submit_all False ip (butlast subs) (snd (is_blocked ip now g))))
        = block_events ip g
    \<and> block_events ip (snd (submit_all False ip subs (snd (is_blocked ip now g))))
        = block_events ip g @ [BLOCK_event ip]
    \<and> (\<forall>t. t < sub_block (last subs) + BLOCK_DURATION \<longrightarrow>
            fst (is_blocked ip t (snd (submit_all False ip subs (snd (is_blocked ip now g)))))
              = True)"
proof -
  let ?g' = "g\<lparr>BLOCKED_IPS := (BLOCKED_IPS g)(ip := None)\<rparr>"
  have r: "is_blocked ip now g = (False, ?g')"
    using expired_is_cleared [OF assms(1-4)] .
  have glob: "ip \<notin> GLOBAL_BLOCKED_IPS ?g'" using assms(1) by simp
  have fresh: "attempt_count ip ?g' = 0" by (simp add: attempt_count_def)
  have ev: "block_events ip ?g' = block_events ip g" by (simp add: block_events_def)
  note f = five_failures [OF glob fresh assms(5,6)]
  note w = five_failures_blocked_window(1) [OF glob fresh assms(5,6)]
  show ?thesis
    using r fresh ev f(4,5,6) w by simp
qed

theorem expired_local_block_resets_the_counter_witness:
  "''9.9.9.9'' \<notin> GLOBAL_BLOCKED_IPS after_five_bad_logins
   \<and> BLOCKED_IPS after_five_bad_logins ''9.9.9.9'' = Some \<lparr>attempts = 5, until = 65\<rparr>
   \<and> fst (is_blocked ''9.9.9.9'' 65 after_five_bad_logins) = False
   \<and> attempt_count ''9.9.9.9'' (snd (is_blocked ''9.9.9.9'' 65 after_five_bad_logins)) = 0
   \<and> fst (is_blocked ''9.9.9.9'' 64
            (snd (submit_all False ''9.9.9.9'' five_bad_logins
                    (snd (is_blocked ''9.9.9.9'' 65 after_five_bad_logins))))) = True"
proof -
  note v = after_five_bad_logins_value
  have a: "MAX_ATTEMPTS \<le> attempts \<lparr>attempts = 5, until = 65\<rparr>"
    by (simp add: MAX_ATTEMPTS_def)
  have b: "until \<lparr>attempts = 5, until = 65\<rparr> \<le> (65::real)"
    by simp
  have c: "(64::real) < sub_block (last five_bad_logins) + BLOCK_DURATION"
    by (simp add: five_bad_logins_facts(3) BLOCK_DURATION_def)
  note w = expired_local_block_resets_the_counter
         [OF v(2) v(1) a b five_bad_logins_facts(1) five_bad_logins_facts(2)]
  from w have "is_blocked ''9.9.9.9'' 65 after_five_bad_logins
      = (False, after_five_bad_logins
           \<lparr>BLOCKED_IPS := (BLOCKED_IPS after_five_bad_logins)(''9.9.9.9'' := None)\<rparr>)"
    by blast
  then have w1: "fst (is_blocked ''9.9.9.9'' 65 after_five_bad_logins) = False"
    by (simp only: fst_conv)
  from w have w2: "attempt_count ''9.9.9.9'' (snd (is_blocked ''9.9.9.9'' 65 after_five_bad_logins)) = 0"
    by blast
  from w c have w3: "fst (is_blocked ''9.9.9.9'' 64
            (snd (submit_all False ''9.9.9.9'' five_bad_logins
                    (snd (is_blocked ''9.9.9.9'' 65 after_five_bad_logins))))) = True"
    by blast
  from v w1 w2 w3 show ?thesis by blast
qed

section \<open>Properties of the command loop\<close>

lemma cmd_cd_fs: "sim_fs (snd (cmd_cd sim args)) = sim_fs sim"
  by (auto simp: cmd_cd_def Let_def split: list.splits)

lemma execute_command_fs: "sim_fs (snd (execute_command sim cmd)) = sim_fs sim"
  by (simp add: execute_command_def cmd_cd_fs split: list.splits)

lemma chan_send_keeps:
  "posted (snd (chan_send rt msg ss)) = posted ss"
  "session_history (snd (chan_send rt msg ss)) = session_history ss"
  "sess_sim (snd (chan_send rt msg ss)) = sess_sim ss"
  "buf (snd (chan_send rt msg ss)) = buf ss"
  "should_exit (snd (chan_send rt msg ss)) = should_exit ss"
  by (simp_all add: chan_send_def)

lemma send_or_raise_state:
  "result_state (send_or_raise rt msg (g, ss)) = (g, snd (chan_send rt msg ss))"
  by (cases "chan_send rt msg ss") (auto simp: send_or_raise_def result_state_def split: option.splits)

lemma send_or_raise_ok:
  "chan_ok rt (send_count ss) \<Longrightarrow>
   send_or_raise rt msg (g, ss)
     = Inr (g, ss\<lparr>chan_sent := chan_sent ss @ [msg], send_count := Suc (send_count ss)\<rparr>)"
  by (simp add: send_or_raise_def chan_send_def)

lemma failure_proceeds:
  "oracle_call_fails (orc (build_payload ip cmd ss0)) \<Longrightarrow>
   pre_execution_eval orc rt ip now cmd (g, ss0)
     = (Proceed, g, ss0\<lparr>posted := posted ss0 @ [build_payload ip cmd ss0]\<rparr>)"
  by (auto simp: pre_execution_eval_def Let_def
           split: http_result.splits option.splits json.splits if_splits)

lemma allow_proceeds:
  "pre_execution_eval allow_oracle rt ip now cmd (g, ss0)
     = (Proceed, g, ss0\<lparr>posted := posted ss0 @ [build_payload ip cmd ss0]\<rparr>)"
  by (simp add: pre_execution_eval_def allow_oracle_def dict_get_def Let_def)

lemma block_terminates:
  "orc (build_payload ip cmd ss0) = HttpResponse 200 (Some (JObj decision)) \<Longrightarrow>
   dict_get decision ''action'' (JStr ''ALLOW'') = JStr ''BLOCK'' \<Longrightarrow>
   chan_ok rt (send_count ss0) \<Longrightarrow>
   pre_execution_eval orc rt ip now cmd (g, ss0)
     = (Terminate,
        (block_ip ip now g)
          \<lparr>GLOBAL_BLOCKED_IPS := insert ip (GLOBAL_BLOCKED_IPS (block_ip ip now g))\<rparr>,
        ss0\<lparr>posted := posted ss0 @ [build_payload ip cmd ss0],
             chan_sent := chan_sent ss0 @ [termination_notice],
             send_count := Suc (send_count ss0), should_exit := True\<rparr>)"
  by (simp add: pre_execution_eval_def Let_def chan_send_def)

lemma block_swallowed:
  "orc (build_payload ip cmd ss0) = HttpResponse 200 (Some (JObj decision)) \<Longrightarrow>
   dict_get decision ''action'' (JStr ''ALLOW'') = JStr ''BLOCK'' \<Longrightarrow>
   \<not> chan_ok rt (send_count ss0) \<Longrightarrow>
   pre_execution_eval orc rt ip now cmd (g, ss0)
     = (Proceed, g,
        ss0\<lparr>posted := posted ss0 @ [build_payload ip cmd ss0],
             send_count := Suc (send_count ss0)\<rparr>)"
  by (simp add: pre_execution_eval_def Let_def chan_send_def)

text \<open>What the interpreter step does to the state, whether it returns or raises.\<close>

lemma run_interpreter_state:
  assumes "result_state (run_interpreter rt ip cmd (g, ss)) = (g', ss')"
  shows "sess_sim ss' = snd (execute_command (sess_sim ss) cmd)"
    and "BLOCKED_IPS g' = BLOCKED_IPS g" and "GLOBAL_BLOCKED_IPS g' = GLOBAL_BLOCKED_IPS g"
    and "posted ss' = posted ss" and "session_history ss' = session_history ss"
    and "buf ss' = buf ss"
  using assms
  by (auto simp: run_interpreter_def log_event_def result_state_def send_or_raise_def
        chan_send_def Let_def split: json.splits if_splits)

lemma run_interpreter_text:
  assumes "result_state (run_interpreter rt ip cmd (g, ss)) = (g', ss')"
    and "fst (execute_command (sess_sim ss) cmd) = JStr out"
  shows "LOG_QUEUE g' = LOG_QUEUE g @ [CMD_EXEC_event ip cmd out]"
    and "should_exit ss' = (should_exit ss \<or> out = ''EXIT'')"
    and "\<exists>sent. chan_sent ss' = chan_sent ss @ sent \<and> set sent \<subseteq> {crlf out @ [CR, LF]}"
    and "chan_ok rt (send_count ss) \<Longrightarrow>
           returns (run_interpreter rt ip cmd (g, ss))
         \<and> chan_sent ss' = chan_sent ss @
              (if out = ''EXIT'' \<or> crlf out = [] then [] else [crlf out @ [CR, LF]])"
  using assms
  by (auto simp: run_interpreter_def log_event_def result_state_def send_or_raise_def
        chan_send_def CMD_EXEC_event_def returns_def Let_def split: if_splits)

text \<open>
  Claim C1. Let a controller URL be configured and let the oracle call for a command fail:
  the request times out or raises, the response has an error status or a body that is not
  JSON, or the JSON is not of the shape the gateway reads. Then the whole step equals the
  step under an oracle that answers ALLOW with \<open>should_deploy = false\<close>, on every channel.
  The interpreter runs on the simulator as it was: the filesystem is the one from before
  the step (no decoy) and nothing is added to either block structure. When the
  interpreter's output is a string, as it is unless a file holding another value is read,
  a CMD_EXEC event with that output is queued, nothing but the output is sent (no
  termination notice), and the exit flag is raised only if the output is \<open>EXIT\<close>; when in
  addition the channel takes the send, the step returns to the loop with exactly that
  output sent.
\<close>

theorem oracle_failure_fails_open:
  assumes "configured url"
    and "oracle_call_fails
           (orc (build_payload ip cmd (ss\<lparr>session_history := session_history ss @ [cmd]\<rparr>)))"
  shows "process_command url orc rt ip now cmd (g, ss)
           = process_command url allow_oracle rt ip now cmd (g, ss)
    \<and> sess_sim (snd (result_state (process_command url orc rt ip now cmd (g, ss))))
        = snd (execute_command (sess_sim ss) cmd)
    \<and> sim_fs (sess_sim (snd (result_state (process_command url orc rt ip now cmd (g, ss)))))
        = sim_fs (sess_sim ss)
    \<and> BLOCKED_IPS (fst (result_state (process_command url orc rt ip now cmd (g, ss))))
        = BLOCKED_IPS g
    \<and> GLOBAL_BLOCKED_IPS (fst (result_state (process_command url orc rt ip now cmd (g, ss))))
        = GLOBAL_BLOCKED_IPS g
    \<and> (\<forall>out. fst (execute_command (sess_sim ss) cmd) = JStr out \<longrightarrow>
          LOG_QUEUE (fst (result_state (process_command url orc rt ip now cmd (g, ss))))
            = LOG_QUEUE g @ [CMD_EXEC_event ip cmd out]
        \<and> should_exit (snd (result_state (process_command url orc rt ip now cmd (g, ss))))
            = (should_exit ss \<or> out = ''EXIT'')
        \<and> (\<exists>sent. chan_sent (snd (result_state (process_command url orc rt ip now cmd (g, ss))))
                     = chan_sent ss @ sent
                  \<and> set sent \<subseteq> {crlf out @ [CR, LF]})
        \<and> (chan_ok rt (send_count ss) \<longrightarrow>
              returns (process_command url orc rt ip now cmd (g, ss))
            \<and> chan_sent (snd (result_state (process_command url orc rt ip now cmd (g, ss))))
                = chan_sent ss @
                    (if out = ''EXIT'' \<or> crlf out = [] then []
                     else [crlf out @ [CR, LF]])))"
proof -
  let ?sa = "ss\<lparr>session_history := session_history ss @ [cmd]\<rparr>"
  let ?sb = "?sa\<lparr>posted := posted ?sa @ [build_payload ip cmd ?sa]\<rparr>"
  let ?R = "process_command url orc rt ip now cmd (g, ss)"
  have p: "?R = run_interpreter rt ip cmd (g, ?sb)"
    using assms
      failure_proceeds [where orc = orc and ip = ip and cmd = cmd and ?ss0.0 = "?sa"
                          and rt = rt and now = now and g = g]
    by (simp add: process_command_def Let_def)
  have a: "process_command url allow_oracle rt ip now cmd (g, ss)
             = run_interpreter rt ip cmd (g, ?sb)"
    using assms(1) allow_proceeds [of rt ip now cmd g "?sa"]
    by (simp add: process_command_def Let_def)
  obtain g' ss' where r: "result_state (run_interpreter rt ip cmd (g, ?sb)) = (g', ss')"
    by (cases "result_state (run_interpreter rt ip cmd (g, ?sb))") auto
  note e = run_interpreter_state [OF r]
  have f: "sim_fs (sess_sim ss') = sim_fs (sess_sim ss)"
    using e(1) by (simp add: execute_command_fs)
  have t: "LOG_QUEUE g' = LOG_QUEUE g @ [CMD_EXEC_event ip cmd out]
        \<and> should_exit ss' = (should_exit ss \<or> out = ''EXIT'')
        \<and> (\<exists>sent. chan_sent ss' = chan_sent ss @ sent \<and> set sent \<subseteq> {crlf out @ [CR, LF]})
        \<and> (chan_ok rt (send_count ss) \<longrightarrow>
              returns (run_interpreter rt ip cmd (g, ?sb))
            \<and> chan_sent ss' = chan_sent ss @
                    (if out = ''EXIT'' \<or> crlf out = [] then []
                     else [crlf out @ [CR, LF]]))"
    if "fst (execute_command (sess_sim ss) cmd) = JStr out" for out
  proof -
    have o: "fst (execute_command (sess_sim ?sb) cmd) = JStr out" using that by simp
    from run_interpreter_text [OF r o] show ?thesis by simp
  qed
  show ?thesis
    unfolding p a r using e f t by simp
qed

theorem oracle_failure_fails_open_witness:
  "configured (Some ''http://controller:5000/receive_log'')
   \<and> oracle_call_fails (timeout_oracle
        (build_payload ''9.9.9.9'' ''cat /etc/hostname''
           ((new_session FakeFilesystem)\<lparr>session_history := [] @ [''cat /etc/hostname'']\<rparr>)))
   \<and> fst (execute_command (sess_sim (new_session FakeFilesystem)) ''cat /etc/hostname'')
        = JStr (''server01'' @ [LF])
   \<and> chan_ok open_channel (send_count (new_session FakeFilesystem))
   \<and> process_command (Some ''http://controller:5000/receive_log'') timeout_oracle open_channel
        ''9.9.9.9'' 0 ''cat /etc/hostname'' (empty_globals, new_session FakeFilesystem)
      = process_command (Some ''http://controller:5000/receive_log'') allow_oracle open_channel
          ''9.9.9.9'' 0 ''cat /etc/hostname'' (empty_globals, new_session FakeFilesystem)
   \<and> returns (process_command (Some ''http://controller:5000/receive_log'') timeout_oracle
                 open_channel ''9.9.9.9'' 0 ''cat /etc/hostname''
                 (empty_globals, new_session FakeFilesystem))
   \<and> should_exit (snd (result_state
         (process_command (Some ''http://controller:5000/receive_log'') timeout_oracle
            open_channel ''9.9.9.9'' 0 ''cat /etc/hostname''
            (empty_globals, new_session FakeFilesystem))))
        = (should_exit (new_session FakeFilesystem) \<or> ''server01'' @ [LF] = ''EXIT'')"
proof -
  have h1: "configured (Some ''http://controller:5000/receive_log'')"
    by (simp add: configured_def)
  have h2: "oracle_call_fails (timeout_oracle
        (build_payload ''9.9.9.9'' ''cat /etc/hostname''
           ((new_session FakeFilesystem)
              \<lparr>session_history := session_history (new_session FakeFilesystem)
                                     @ [''cat /etc/hostname'']\<rparr>)))"
    by (simp add: timeout_oracle_def)
  have h3: "session_history (new_session FakeFilesystem) = []"
    by (simp add: new_session_def)
  have o: "fst (execute_command (sess_sim (new_session FakeFilesystem)) ''cat /etc/hostname'')
             = JStr (''server01'' @ [LF])"
    by code_simp
  have c: "chan_ok open_channel (send_count (new_session FakeFilesystem))"
    by (simp add: open_channel_def)
  note w = oracle_failure_fails_open
         [where url = "Some ''http://controller:5000/receive_log''" and orc = timeout_oracle
            and ip = "''9.9.9.9''" and cmd = "''cat /etc/hostname''"
            and ss = "new_session FakeFilesystem" and now = 0 and g = empty_globals
            and rt = open_channel,
          OF h1 h2]
  note e = w [THEN conjunct1]
  note t = w [THEN conjunct2, THEN conjunct2, THEN conjunct2, THEN conjunct2, THEN conjunct2,
              THEN spec, THEN mp, OF o]
  note x = t [THEN conjunct2, THEN conjunct1]
  note r = t [THEN conjunct2, THEN conjunct2, THEN conjunct2, THEN mp, OF c, THEN conjunct1]
  from h1 h2 h3 o c e x r show ?thesis by simp
qed

lemma block_ip_records:
  "BLOCKED_IPS (block_ip ip now g) ip \<noteq> None
   \<and> attempt_count ip (block_ip ip now g) = attempt_count ip g + 1
   \<and> GLOBAL_BLOCKED_IPS (block_ip ip now g) = GLOBAL_BLOCKED_IPS g
   \<and> cmd_exec_events (block_ip ip now g) = cmd_exec_events g"
  by (auto simp: block_ip_def log_event_def attempt_count_def cmd_exec_events_def Let_def
           split: option.splits)

text \<open>
  A BLOCK verdict whose notice the channel takes: the notice is sent and nothing else,
  the address is counted in the local block map and put into the global set in the same
  step, so that \<open>is_blocked\<close> is true for it at once and at every clock value, the exit
  flag is raised, and the interpreter is not run.
\<close>

lemma block_verdict_with_notice_sent:
  assumes "configured url"
    and "orc (build_payload ip cmd (ss\<lparr>session_history := session_history ss @ [cmd]\<rparr>))
           = HttpResponse 200 (Some (JObj decision))"
    and "dict_get decision ''action'' (JStr ''ALLOW'') = JStr ''BLOCK''"
    and "chan_ok rt (send_count ss)"
  shows "\<exists>g' ss'. process_command url orc rt ip now cmd (g, ss) = Inr (g', ss')
            \<and> chan_sent ss' = chan_sent ss
                 @ [[CR, LF] @ ''Connection terminated by security policy.'' @ [CR, LF]]
            \<and> BLOCKED_IPS g' ip \<noteq> None
            \<and> attempt_count ip g' = attempt_count ip g + 1
            \<and> GLOBAL_BLOCKED_IPS g' = insert ip (GLOBAL_BLOCKED_IPS g)
            \<and> (\<forall>t. is_blocked ip t g' = (True, g'))
            \<and> should_exit ss'
            \<and> sess_sim ss' = sess_sim ss
            \<and> cmd_exec_events g' = cmd_exec_events g"
proof -
  let ?sa = "ss\<lparr>session_history := session_history ss @ [cmd]\<rparr>"
  let ?ga = "block_ip ip now g"
  let ?gb = "?ga\<lparr>GLOBAL_BLOCKED_IPS := insert ip (GLOBAL_BLOCKED_IPS ?ga)\<rparr>"
  let ?sb = "?sa\<lparr>posted := posted ?sa @ [build_payload ip cmd ?sa],
                    chan_sent := chan_sent ?sa @ [termination_notice],
                    send_count := Suc (send_count ?sa), should_exit := True\<rparr>"
  have c: "chan_ok rt (send_count ?sa)" using assms(4) by simp
  have p: "process_command url orc rt ip now cmd (g, ss) = Inr (?gb, ?sb)"
    using assms(1)
      block_terminates [where orc = orc and ip = ip and cmd = cmd and ?ss0.0 = "?sa"
                          and decision = decision and rt = rt and now = now and g = g]
      assms(2,3) c
    by (simp add: process_command_def Let_def)
  note b = block_ip_records [of ip now g]
  have blk: "\<forall>t. is_blocked ip t ?gb = (True, ?gb)"
    by (simp add: is_blocked_def)
  show ?thesis
    using b blk by (simp add: p attempt_count_def cmd_exec_events_def termination_notice_def)
qed

text \<open>
  A BLOCK verdict whose notice the channel does not take: the exception of the send is
  caught by the handler of the \<^verbatim>\<open>try\<close> block, and the step is the interpreter step on a
  state in which nothing has been blocked.
\<close>

lemma block_verdict_with_notice_failing:
  assumes "configured url"
    and "orc (build_payload ip cmd (ss\<lparr>session_history := session_history ss @ [cmd]\<rparr>))
           = HttpResponse 200 (Some (JObj decision))"
    and "dict_get decision ''action'' (JStr ''ALLOW'') = JStr ''BLOCK''"
    and "\<not> chan_ok rt (send_count ss)"
  shows "process_command url orc rt ip now cmd (g, ss)
           = run_interpreter rt ip cmd
               (g, ss\<lparr>session_history := session_history ss @ [cmd],
                       posted := posted ss
                         @ [build_payload ip cmd
                              (ss\<lparr>session_history := session_history ss @ [cmd]\<rparr>)],
                       send_count := Suc (send_count ss)\<rparr>)"
proof -
  let ?sa = "ss\<lparr>session_history := session_history ss @ [cmd]\<rparr>"
  have c: "\<not> chan_ok rt (send_count ?sa)" using assms(4) by simp
  show ?thesis
    using assms(1)
      block_swallowed [where orc = orc and ip = ip and cmd = cmd and ?ss0.0 = "?sa"
                         and decision = decision and rt = rt and now = now and g = g]
      assms(2,3) c
    by (simp add: process_command_def Let_def)
qed

text \<open>
  Claim C3 holds of the code only while the termination notice can be sent. The attacker
  types \<open>rm -rf /\<close> and Enter, the oracle answers BLOCK, and by then the channel is closed, so
  that the send of the notice raises. The shell loop is left with the socket error of the
  next send, and at that point the address is in neither block structure, \<open>is_blocked\<close> is
  false for it, the command has gone through the interpreter (one CMD_EXEC event with its
  output is queued) and the notice is not among the strings sent. On an open channel the
  same input ends as the claim says: notice sent last, address in both structures, exit
  flag raised, no CMD_EXEC event.
\<close>

theorem block_verdict_on_closed_channel:
  "\<not> returns block_on_closed_channel
   \<and> ''9.9.9.9'' \<notin> GLOBAL_BLOCKED_IPS (fst (result_state block_on_closed_channel))
   \<and> BLOCKED_IPS (fst (result_state block_on_closed_channel)) ''9.9.9.9'' = None
   \<and> fst (is_blocked ''9.9.9.9'' 101 (fst (result_state block_on_closed_channel))) = False
   \<and> LOG_QUEUE (fst (result_state block_on_closed_channel))
        = [CMD_EXEC_event ''9.9.9.9'' ''rm -rf /'' ''rm: command not found'']
   \<and> chan_sent (snd (result_state block_on_closed_channel))
        = [''r'', ''m'', '' '', ''-'', ''r'', ''f'', '' '', ''/'', [CR, LF]]
   \<and> returns block_delivered
   \<and> ''9.9.9.9'' \<in> GLOBAL_BLOCKED_IPS (fst (result_state block_delivered))
   \<and> BLOCKED_IPS (fst (result_state block_delivered)) ''9.9.9.9''
        = Some \<lparr>attempts = 1, until = 0\<rparr>
   \<and> fst (is_blocked ''9.9.9.9'' 101 (fst (result_state block_delivered))) = True
   \<and> LOG_QUEUE (fst (result_state block_delivered)) = []
   \<and> last (chan_sent (snd (result_state block_delivered)))
        = [CR, LF] @ ''Connection terminated by security policy.'' @ [CR, LF]
   \<and> should_exit (snd (result_state block_delivered))"
  by code_simp

lemma whole_histories_snoc: "whole_histories (h @ [c]) = whole_histories h @ [h @ [c]]"
  by (simp add: whole_histories_def)

lemma pre_execution_eval_posts:
  "pre_execution_eval orc rt ip now cmd (g, ss0) = (v, g1, ss1) \<Longrightarrow>
     posted ss1 = posted ss0 @ [build_payload ip cmd ss0]
   \<and> session_history ss1 = session_history ss0"
  by (auto simp: pre_execution_eval_def Let_def chan_send_def
           split: http_result.splits option.splits json.splits if_splits)

lemma process_command_posts:
  assumes "configured url"
    and "result_state (process_command url orc rt ip now cmd (g, ss)) = (g', ss')"
  shows "posted ss' = posted ss
            @ [build_payload ip cmd (ss\<lparr>session_history := session_history ss @ [cmd]\<rparr>)]"
    and "session_history ss' = session_history ss @ [cmd]"
proof -
  let ?sa = "ss\<lparr>session_history := session_history ss @ [cmd]\<rparr>"
  obtain v g1 ss1 where e: "pre_execution_eval orc rt ip now cmd (g, ?sa) = (v, g1, ss1)"
    by (cases "pre_execution_eval orc rt ip now cmd (g, ?sa)") auto
  note q = pre_execution_eval_posts [OF e]
  have "posted ss' = posted ss @ [build_payload ip cmd ?sa]
      \<and> session_history ss' = session_history ss @ [cmd]"
  proof (cases v)
    case Terminate
    with assms e have "(g', ss') = (g1, ss1)"
      by (simp add: process_command_def Let_def result_state_def)
    with q show ?thesis by simp
  next
    case Proceed
    with assms e have r: "result_state (run_interpreter rt ip cmd (g1, ss1)) = (g', ss')"
      by (simp add: process_command_def Let_def)
    from run_interpreter_state(4,5) [OF r] q show ?thesis by simp
  qed
  then show "posted ss' = posted ss @ [build_payload ip cmd ?sa]"
    and "session_history ss' = session_history ss @ [cmd]" by simp_all
qed

lemma process_command_whole:
  assumes "configured url" and "history_sent_whole ss"
  shows "history_sent_whole (snd (result_state (process_command url orc rt ip now cmd (g, ss))))"
proof -
  obtain g' ss' where r: "result_state (process_command url orc rt ip now cmd (g, ss)) = (g', ss')"
    by (cases "result_state (process_command url orc rt ip now cmd (g, ss))") auto
  from process_command_posts [OF assms(1) r] assms(2) show ?thesis
    by (simp add: r history_sent_whole_def whole_histories_snoc build_payload_def)
qed

lemma history_sent_whole_cong:
  "posted a = posted b \<Longrightarrow> session_history a = session_history b \<Longrightarrow>
   history_sent_whole a = history_sent_whole b"
  by (simp add: history_sent_whole_def)

lemma send_or_raise_whole:
  "history_sent_whole ss \<Longrightarrow>
   history_sent_whole (snd (result_state (send_or_raise rt msg (g, ss))))"
  by (simp add: send_or_raise_state history_sent_whole_def chan_send_keeps)

lemma handle_char_whole:
  assumes "configured url" and "history_sent_whole ss"
  shows "history_sent_whole (snd (result_state (handle_char url orc rt ip now c (g, ss))))"
proof (cases "c = CR \<or> c = LF")
  case True
  show ?thesis
  proof (cases "send_or_raise rt [CR, LF] (g, ss)")
    case (Inl x)
    with send_or_raise_whole [OF assms(2), of rt "[CR, LF]" g] True show ?thesis
      by (simp add: handle_char_def)
  next
    case (Inr st1)
    obtain g1 ss1 where st1: "st1 = (g1, ss1)" by (cases st1) auto
    have w1: "history_sent_whole ss1"
      using send_or_raise_whole [OF assms(2), of rt "[CR, LF]" g] Inr st1
      by (simp add: result_state_def)
    let ?cmd = "strip_ws (buf ss1)"
    let ?P = "if ?cmd \<noteq> [] then process_command url orc rt ip now ?cmd (g1, ss1)
              else Inr (g1, ss1)"
    have wp: "history_sent_whole (snd (result_state ?P))"
      using process_command_whole [OF assms(1) w1, of orc rt ip now ?cmd g1] w1
      by (simp add: result_state_def)
    show ?thesis
    proof (cases ?P)
      case pl: (Inl x)
      with wp True Inr st1 show ?thesis
        by (simp add: handle_char_def Let_def)
    next
      case pr: (Inr st2)
      obtain g2 ss2 where st2: "st2 = (g2, ss2)" by (cases st2) auto
      have w2: "history_sent_whole ss2"
        using wp pr st2 by (simp add: result_state_def)
      have w3: "history_sent_whole (ss2\<lparr>buf := []\<rparr>)"
        using w2 by (simp add: history_sent_whole_def)
      from send_or_raise_whole [OF w3, of rt "prompt (sess_sim ss2)" g2] w2
      show ?thesis
        using True Inr st1 pr st2 by (simp add: handle_char_def Let_def result_state_def)
    qed
  qed
next
  case False
  have a: "history_sent_whole (ss\<lparr>buf := butlast (buf ss)\<rparr>)"
    and b: "history_sent_whole (ss\<lparr>buf := buf ss @ [c]\<rparr>)"
    using assms(2) by (simp_all add: history_sent_whole_def)
  from False assms(2)
    send_or_raise_whole [OF a, of rt "[CHR 0x08, CHR '' '', CHR 0x08]" g]
    send_or_raise_whole [OF b, of rt "[c]" g]
  show ?thesis
    by (simp add: handle_char_def result_state_def)
qed

lemma for_chars_whole:
  "configured url \<Longrightarrow> history_sent_whole ss \<Longrightarrow>
   history_sent_whole (snd (result_state (for_chars url orc rt ip now cs (g, ss))))"
proof (induction cs arbitrary: g ss)
  case Nil
  then show ?case by (simp add: result_state_def)
next
  case (Cons c cs)
  note w = handle_char_whole [OF Cons.prems, of orc rt ip now c g]
  show ?case
  proof (cases "handle_char url orc rt ip now c (g, ss)")
    case (Inl x)
    with w show ?thesis by simp
  next
    case (Inr st1)
    obtain g1 ss1 where st1: "st1 = (g1, ss1)" by (cases st1) auto
    have w1: "history_sent_whole ss1" using w Inr st1 by (simp add: result_state_def)
    from Cons.IH [OF Cons.prems(1) w1, of g1] w1 Inr st1 show ?thesis
      by (simp add: result_state_def)
  qed
qed

lemma handle_data_whole:
  "configured url \<Longrightarrow> history_sent_whole ss \<Longrightarrow>
   history_sent_whole (snd (result_state (handle_data url orc rt ip now cs (g, ss))))"
  using for_chars_whole [of url "ss\<lparr>should_exit := False\<rparr>" orc rt ip now cs g]
  by (simp add: handle_data_def history_sent_whole_def)

lemma shell_loop_whole:
  "configured url \<Longrightarrow> history_sent_whole (snd st) \<Longrightarrow>
   history_sent_whole (snd (result_state (shell_loop url orc rt ip chunks st)))"
proof (induction url orc rt ip chunks st rule: shell_loop.induct)
  case (1 url orc rt ip st)
  then show ?case by (simp add: result_state_def)
next
  case (2 url orc rt ip now data rest st)
  show ?case
  proof (cases "data = []")
    case True
    with "2.prems" show ?thesis by (simp add: result_state_def)
  next
    case False
    have w: "history_sent_whole (snd (result_state (handle_data url orc rt ip now data st)))"
      using handle_data_whole [OF "2.prems"(1), of "snd st" orc rt ip now data "fst st"]
        "2.prems"(2) by simp
    show ?thesis
    proof (cases "handle_data url orc rt ip now data st")
      case (Inl x)
      with w False show ?thesis by simp
    next
      case (Inr st1)
      have w1: "history_sent_whole (snd st1)" using w Inr by (simp add: result_state_def)
      show ?thesis
      proof (cases "should_exit (snd st1)")
        case True
        with False Inr w1 show ?thesis by (simp add: result_state_def)
      next
        case ne: False
        from "2.IH" [OF False Inr ne "2.prems"(1) w1] False Inr ne show ?thesis by simp
      qed
    qed
  qed
qed

text \<open>
  Claim C8, as stated, fails: the gateway puts the whole \<open>session_history\<close> into the
  request. In a session of five commands the fifth request carries all five commands,
  which is the entire history of the session and not the three-entry tail that the
  oracle's prompt builder cuts out of it afterwards.
\<close>

theorem request_history_is_not_a_tail_counterexample:
  "session_history five_command_session = [''pwd'', ''id'', ''whoami'', ''ls'', ''uname'']
   \<and> p_history (last (posted five_command_session))
        = [''pwd'', ''id'', ''whoami'', ''ls'', ''uname'']
   \<and> recent_history (session_history five_command_session) = [''whoami'', ''ls'', ''uname'']
   \<and> map p_history (posted five_command_session)
        = [[''pwd''], [''pwd'', ''id''], [''pwd'', ''id'', ''whoami''],
           [''pwd'', ''id'', ''whoami'', ''ls''],
           [''pwd'', ''id'', ''whoami'', ''ls'', ''uname'']]"
  by code_simp

text \<open>
  Claim C8, amended. With a controller URL configured, the history field of every
  request is the entire command history of the session up to and including the command
  being evaluated; the gateway applies no bound. For one command: the request posted has
  the old history followed by the command as its history. For a whole session, whatever
  chunks arrive, whatever the oracle answers and whether the loop returns or is left by an
  exception: the k-th request posted carries exactly the first k commands of the session,
  and there is one request per command.
\<close>

theorem request_history_is_the_whole_session_history:
  assumes "configured url"
  shows "posted (snd (result_state (process_command url orc rt ip now cmd (g, ss))))
           = posted ss
               @ [build_payload ip cmd (ss\<lparr>session_history := session_history ss @ [cmd]\<rparr>)]
       \<and> p_history (last (posted (snd (result_state
             (process_command url orc rt ip now cmd (g, ss))))))
           = session_history ss @ [cmd]
       \<and> session_history (snd (result_state (process_command url orc rt ip now cmd (g, ss))))
           = session_history ss @ [cmd]
       \<and> map p_history (posted (snd (result_state
             (shell_loop url orc rt ip chunks (g, new_session filesystem)))))
           = whole_histories (session_history (snd (result_state
               (shell_loop url orc rt ip chunks (g, new_session filesystem)))))
       \<and> length (posted (snd (result_state
             (shell_loop url orc rt ip chunks (g, new_session filesystem)))))
           = length (session_history (snd (result_state
               (shell_loop url orc rt ip chunks (g, new_session filesystem)))))
       \<and> (\<forall>k < length (posted (snd (result_state
                     (shell_loop url orc rt ip chunks (g, new_session filesystem))))).
             p_history (posted (snd (result_state
                  (shell_loop url orc rt ip chunks (g, new_session filesystem)))) ! k)
               = take (Suc k) (session_history (snd (result_state
                   (shell_loop url orc rt ip chunks (g, new_session filesystem))))))"
proof -
  obtain g1 ss1 where r1: "result_state (process_command url orc rt ip now cmd (g, ss)) = (g1, ss1)"
    by (cases "result_state (process_command url orc rt ip now cmd (g, ss))") auto
  have one: "posted ss1 = posted ss
               @ [build_payload ip cmd (ss\<lparr>session_history := session_history ss @ [cmd]\<rparr>)]
           \<and> p_history (last (posted ss1)) = session_history ss @ [cmd]
           \<and> session_history ss1 = session_history ss @ [cmd]"
    using process_command_posts [OF assms r1] by (simp add: build_payload_def)
  obtain g' ss' where r:
    "result_state (shell_loop url orc rt ip chunks (g, new_session filesystem)) = (g', ss')"
    by (cases "result_state (shell_loop url orc rt ip chunks (g, new_session filesystem))") auto
  have i: "history_sent_whole (snd (g, new_session filesystem))"
    by (simp add: history_sent_whole_def new_session_def whole_histories_def)
  from shell_loop_whole [OF assms i, of orc rt ip chunks] r
  have m: "map p_history (posted ss') = whole_histories (session_history ss')"
    by (simp add: history_sent_whole_def)
  then have "length (map p_history (posted ss')) = length (whole_histories (session_history ss'))"
    by simp
  then have l: "length (posted ss') = length (session_history ss')"
    by (simp add: whole_histories_def)
  have n: "p_history (posted ss' ! k) = take (Suc k) (session_history ss')"
    if "k < length (posted ss')" for k
  proof -
    have "p_history (posted ss' ! k) = map p_history (posted ss') ! k"
      using that by simp
    also have "\<dots> = whole_histories (session_history ss') ! k"
      using m by simp
    also have "\<dots> = take (Suc k) (session_history ss')"
      using that l by (simp add: whole_histories_def)
    finally show ?thesis .
  qed
  from one m l n show ?thesis
    unfolding r1 r by (simp add: build_payload_def)
qed

theorem request_history_is_the_whole_session_history_witness:
  "configured (Some ''http://controller:5000/receive_log'')
   \<and> map p_history (posted five_command_session)
        = whole_histories (session_history five_command_session)
   \<and> length (posted five_command_session) = length (session_history five_command_session)"
proof -
  have h: "configured (Some ''http://controller:5000/receive_log'')"
    by (simp add: configured_def)
  note w = request_history_is_the_whole_session_history
         [where url = "Some ''http://controller:5000/receive_log''" and orc = allow_oracle
            and rt = open_channel
            and ip = "''9.9.9.9''" and g = empty_globals and filesystem = FakeFilesystem
            and chunks = "[(0, ''pwd'' @ [CR] @ ''id'' @ [CR] @ ''whoami'' @ [CR] @ ''ls'' @ [CR]
                               @ ''uname'' @ [CR])]", OF h]
  note v = w [THEN conjunct2, THEN conjunct2, THEN conjunct2]
  have a: "map p_history (posted five_command_session)
        = whole_histories (session_history five_command_session)"
    unfolding five_command_session_def by (rule v [THEN conjunct1])
  have b: "length (posted five_command_session) = length (session_history five_command_session)"
    unfolding five_command_session_def by (rule v [THEN conjunct2, THEN conjunct1])
  from a b have "map p_history (posted five_command_session)
        = whole_histories (session_history five_command_session)
      \<and> length (posted five_command_session) = length (session_history five_command_session)"
    by (rule conjI)
  with h show ?thesis by simp
qed

section \<open>Properties of decoy deployment\<close>

lemma count_list_distinct: "distinct xs \<Longrightarrow> x \<in> set xs \<Longrightarrow> count_list xs x = 1"
  by (induction xs) (auto simp: count_list_0_iff)

lemma add_name_facts:
  "name \<in> set (contents (add_name name nd))"
  "set (contents nd) \<subseteq> set (contents (add_name name' nd))"
  "distinct (contents nd) \<Longrightarrow> distinct (contents (add_name name' nd))"
  "name \<in> set (contents nd) \<Longrightarrow> add_name name nd = nd"
  by (auto simp: add_name_def)

lemma join_dir_longer: "part \<noteq> [] \<Longrightarrow> length cur < length (join_dir cur part)"
  by (cases part) (auto simp: join_dir_def)

lemma decoy_chain_longer:
  "(p, n, d) \<in> set (decoy_chain parts cur) \<Longrightarrow> length cur < length d"
proof (induction parts arbitrary: cur)
  case Nil
  then show ?case by simp
next
  case (Cons part rest)
  show ?case
  proof (cases "part = []")
    case True
    with Cons show ?thesis by simp
  next
    case False
    from Cons.prems False
    consider "d = join_dir cur part" | "(p, n, d) \<in> set (decoy_chain rest (join_dir cur part))"
      by auto
    then show ?thesis
    proof cases
      case 1
      with False show ?thesis by (simp add: join_dir_longer)
    next
      case 2
      from Cons.IH [OF 2] join_dir_longer [OF False, of cur] show ?thesis by simp
    qed
  qed
qed

text \<open>The directory loop when the starting directory exists: what it returns and keeps.\<close>

lemma grows_refl: "grows m m"
  by (auto simp: grows_def)

lemma grows_dom: "grows m m' \<Longrightarrow> m d \<noteq> None \<Longrightarrow> m' d \<noteq> None"
proof -
  assume g: "grows m m'" and "m d \<noteq> None"
  then obtain nd where "m d = Some nd" by auto
  with g obtain nd' where "m' d = Some nd'" unfolding grows_def by blast
  then show ?thesis by simp
qed

lemma grows_trans: "grows a b \<Longrightarrow> grows b c \<Longrightarrow> grows a c"
  unfolding grows_def by (meson subset_trans)

lemma deploy_dirs_ok:
  assumes "m cur \<noteq> None" and "\<forall>d nd. m d = Some nd \<longrightarrow> distinct (contents nd)"
  shows "\<exists>m'. deploy_dirs parts cur m = (None, decoy_end parts cur, m')
           \<and> m' (decoy_end parts cur) \<noteq> None
           \<and> grows m m'
           \<and> (\<forall>d nd. m' d = Some nd \<longrightarrow> distinct (contents nd))
           \<and> (\<forall>(p, n, d) \<in> set (decoy_chain parts cur).
                 m' d \<noteq> None
               \<and> (m d = None \<longrightarrow> (\<exists>nd. m' p = Some nd \<and> n \<in> set (contents nd))))"
  using assms
proof (induction parts arbitrary: cur m)
  case Nil
  then show ?case by (auto simp: grows_refl)
next
  case (Cons part rest)
  show ?case
  proof (cases "part = []")
    case True
    with Cons.IH [OF Cons.prems] show ?thesis by simp
  next
    case ne: False
    let ?next = "join_dir cur part"
    show ?thesis
    proof (cases "m ?next")
      case (Some nd0)
      then have "m ?next \<noteq> None" by simp
      from Cons.IH [OF this Cons.prems(2)] obtain m' where
        r: "deploy_dirs rest ?next m = (None, decoy_end rest ?next, m')"
        and e: "m' (decoy_end rest ?next) \<noteq> None" and g: "grows m m'"
        and di: "\<forall>d nd. m' d = Some nd \<longrightarrow> distinct (contents nd)"
        and ch: "\<forall>(p, n, d) \<in> set (decoy_chain rest ?next).
                 m' d \<noteq> None
               \<and> (m d = None \<longrightarrow> (\<exists>nd. m' p = Some nd \<and> n \<in> set (contents nd)))"
        by blast
      have here: "m' ?next \<noteq> None"
        using grows_dom [OF g] Some by simp
      show ?thesis
        using ne Some r e g di ch here by (auto simp: Let_def)
    next
      case None
      obtain nd where c: "m cur = Some nd" using Cons.prems(1) by auto
      let ?m1 = "m(?next \<mapsto> \<lparr>ntype = ''dir'', contents = []\<rparr>)"
      let ?m2 = "?m1(cur \<mapsto> add_name part nd)"
      have neq: "cur \<noteq> ?next" using join_dir_longer [OF ne, of cur] by auto
      have c1: "?m1 cur = Some nd" using c neq by simp
      have n2: "?m2 ?next \<noteq> None" using neq by simp
      have d2: "\<forall>d nd. ?m2 d = Some nd \<longrightarrow> distinct (contents nd)"
        using Cons.prems(2) c add_name_facts(3) [of nd part] by (auto split: if_splits)
      from Cons.IH [OF n2 d2] obtain m' where
        r: "deploy_dirs rest ?next ?m2 = (None, decoy_end rest ?next, m')"
        and e: "m' (decoy_end rest ?next) \<noteq> None" and g: "grows ?m2 m'"
        and di: "\<forall>d nd. m' d = Some nd \<longrightarrow> distinct (contents nd)"
        and ch: "\<forall>(p, n, d) \<in> set (decoy_chain rest ?next).
                 m' d \<noteq> None
               \<and> (?m2 d = None \<longrightarrow> (\<exists>nd. m' p = Some nd \<and> n \<in> set (contents nd)))"
        by blast
      have g02: "grows m ?m2"
        using None c add_name_facts(2) [of nd part] by (auto simp: grows_def)
      have g0: "grows m m'" using grows_trans [OF g02 g] .
      have run: "deploy_dirs (part # rest) cur m = (None, decoy_end rest ?next, m')"
        using ne None c1 r by (simp add: Let_def)
      have here1: "m' ?next \<noteq> None"
        using grows_dom [OF g n2] .
      have here2: "\<exists>nd'. m' cur = Some nd' \<and> part \<in> set (contents nd')"
      proof -
        have "?m2 cur = Some (add_name part nd)" by simp
        with g obtain nd' where "m' cur = Some nd'"
          "set (contents (add_name part nd)) \<subseteq> set (contents nd')"
          unfolding grows_def by blast
        with add_name_facts(1) [of part nd] show ?thesis by auto
      qed
      have later: "m' d \<noteq> None
               \<and> (m d = None \<longrightarrow> (\<exists>nd. m' p = Some nd \<and> n \<in> set (contents nd)))"
        if t: "(p, n, d) \<in> set (decoy_chain rest ?next)" for p n d
      proof -
        from decoy_chain_longer [OF t] join_dir_longer [OF ne, of cur]
        have "d \<noteq> ?next" "d \<noteq> cur" by auto
        then have "?m2 d = m d" by simp
        with ch t show ?thesis by auto
      qed
      show ?thesis
        using ne run e g0 di here1 here2 later by auto
    qed
  qed
qed

lemma deploy_dirs_again:
  "\<forall>(p, n, d) \<in> set (decoy_chain parts cur). m d \<noteq> None \<Longrightarrow>
   deploy_dirs parts cur m = (None, decoy_end parts cur, m)"
  by (induction parts arbitrary: cur) (auto simp: Let_def)


text \<open>One deployment on a filesystem with a root and duplicate-free listings.\<close>

lemma deploy_decoy_once:
  assumes root: "fs fsys ''/'' \<noteq> None" and dist: "listings_distinct fsys"
  shows "\<exists>m1. deploy_decoy path content fsys
                = (None, \<lparr>fs = m1, file_contents = (file_contents fsys)(path \<mapsto> content)\<rparr>)
           \<and> grows (fs fsys) m1
           \<and> (\<forall>d nd. m1 d = Some nd \<longrightarrow> distinct (contents nd))
           \<and> (\<exists>nd. m1 (decoy_parent path) = Some nd \<and> decoy_filename path \<in> set (contents nd))
           \<and> (\<forall>(p, n, d) \<in> set (decoy_ancestors path).
                 m1 d \<noteq> None
               \<and> (fs fsys d = None \<longrightarrow> (\<exists>nd. m1 p = Some nd \<and> n \<in> set (contents nd))))"
proof -
  let ?dirs = "butlast (decoy_parts path)"
  let ?end = "decoy_parent path"
  let ?file = "decoy_filename path"
  have d0: "\<forall>d nd. fs fsys d = Some nd \<longrightarrow> distinct (contents nd)"
    using dist by (simp add: listings_distinct_def)
  from deploy_dirs_ok [OF root d0, of ?dirs] obtain m' where
    r: "deploy_dirs ?dirs ''/'' (fs fsys) = (None, ?end, m')"
    and e: "m' ?end \<noteq> None" and g: "grows (fs fsys) m'"
    and di: "\<forall>d nd. m' d = Some nd \<longrightarrow> distinct (contents nd)"
    and ch: "\<forall>(p, n, d) \<in> set (decoy_chain ?dirs ''/'').
                 m' d \<noteq> None
               \<and> (fs fsys d = None \<longrightarrow> (\<exists>nd. m' p = Some nd \<and> n \<in> set (contents nd)))"
    unfolding decoy_parent_def by blast
  from e obtain nde where nde: "m' ?end = Some nde" by auto
  let ?m1 = "m'(?end \<mapsto> add_name ?file nde)"
  have run: "deploy_decoy path content fsys
               = (None, \<lparr>fs = ?m1, file_contents = (file_contents fsys)(path \<mapsto> content)\<rparr>)"
    using r nde by (simp add: deploy_decoy_def Let_def decoy_filename_def)
  have g1: "grows m' ?m1"
    using nde add_name_facts(2) [of nde ?file] by (auto simp: grows_def)
  have gg: "grows (fs fsys) ?m1" using grows_trans [OF g g1] .
  have d1: "\<forall>d nd. ?m1 d = Some nd \<longrightarrow> distinct (contents nd)"
    using di nde add_name_facts(3) [of nde ?file] by (auto split: if_splits)
  have f1: "\<exists>nd. ?m1 ?end = Some nd \<and> ?file \<in> set (contents nd)"
    using add_name_facts(1) [of ?file nde] by simp
  have c1: "?m1 d \<noteq> None
               \<and> (fs fsys d = None \<longrightarrow> (\<exists>nd. ?m1 p = Some nd \<and> n \<in> set (contents nd)))"
    if t: "(p, n, d) \<in> set (decoy_ancestors path)" for p n d
  proof -
    from ch t have a: "m' d \<noteq> None"
      and b: "fs fsys d = None \<longrightarrow> (\<exists>nd. m' p = Some nd \<and> n \<in> set (contents nd))"
      unfolding decoy_ancestors_def by auto
    have a1: "?m1 d \<noteq> None" using grows_dom [OF g1 a] .
    have b1: "\<exists>nd. ?m1 p = Some nd \<and> n \<in> set (contents nd)" if "fs fsys d = None"
    proof -
      from b that obtain nd where "m' p = Some nd" "n \<in> set (contents nd)" by blast
      with g1 show ?thesis unfolding grows_def by blast
    qed
    from a1 b1 show ?thesis by blast
  qed
  from run gg d1 f1 c1 show ?thesis by blast
qed

lemma deploy_decoy_again:
  assumes ex: "\<forall>(p, n, d) \<in> set (decoy_ancestors path). fs fsys d \<noteq> None"
    and fl: "fs fsys (decoy_parent path) = Some nd" "decoy_filename path \<in> set (contents nd)"
  shows "deploy_decoy path content fsys
           = (None, fsys\<lparr>file_contents := (file_contents fsys)(path \<mapsto> content)\<rparr>)"
proof -
  have r: "deploy_dirs (butlast (decoy_parts path)) ''/'' (fs fsys)
             = (None, decoy_parent path, fs fsys)"
    using deploy_dirs_again [of "butlast (decoy_parts path)" "''/''" "fs fsys"] ex
    by (simp add: decoy_ancestors_def decoy_parent_def)
  have "(fs fsys)(decoy_parent path \<mapsto> add_name (decoy_filename path) nd) = fs fsys"
    using fl add_name_facts(4) [of "decoy_filename path" nd] by (simp add: map_upd_triv)
  then show ?thesis
    using r fl by (simp add: deploy_decoy_def Let_def decoy_filename_def)
qed


lemma FakeFilesystem_well_formed:
  "fs FakeFilesystem ''/'' \<noteq> None" "listings_distinct FakeFilesystem"
proof -
  show "fs FakeFilesystem ''/'' \<noteq> None"
    by (simp add: FakeFilesystem_def init_fs_alist_def)
  have "distinct (contents nd)" if "map_of init_fs_alist d = Some nd" for d nd
  proof -
    from map_of_SomeD [OF that] have "(d, nd) \<in> set init_fs_alist" .
    then show ?thesis
      by (auto simp: init_fs_alist_def dir_node_def)
  qed
  then show "listings_distinct FakeFilesystem"
    by (simp add: listings_distinct_def FakeFilesystem_def)
qed

text \<open>
  Claim C5. On a filesystem that has its root and whose listings name no entry twice (the
  initial filesystem is one, and every deployment keeps both facts), deploying a decoy
  raises nothing, and deploying it a second time at the same path and with the same
  content returns the very same filesystem; with another content only the stored text
  changes and the directory dictionary is the same. After the two calls the file's name
  occurs exactly once in the listing of its parent directory, and the name of every
  ancestor directory that was missing before the first call occurs exactly once in the
  listing of its own parent.
\<close>

theorem deploy_decoy_twice_lists_once:
  assumes "fs fsys ''/'' \<noteq> None" and "listings_distinct fsys"
  shows "fst (deploy_decoy path content fsys) = None
    \<and> deploy_decoy path content (snd (deploy_decoy path content fsys))
        = (None, snd (deploy_decoy path content fsys))
    \<and> fst (deploy_decoy path content' (snd (deploy_decoy path content fsys))) = None
    \<and> fs (snd (deploy_decoy path content' (snd (deploy_decoy path content fsys))))
        = fs (snd (deploy_decoy path content fsys))
    \<and> listing_count (snd (deploy_decoy path content (snd (deploy_decoy path content fsys))))
         (decoy_parent path) (decoy_filename path) = 1
    \<and> (\<forall>(parent, name, dir) \<in> set (decoy_ancestors path).
          fs fsys dir = None \<longrightarrow>
          listing_count (snd (deploy_decoy path content (snd (deploy_decoy path content fsys))))
            parent name = 1)
    \<and> fs (snd (deploy_decoy path content (snd (deploy_decoy path content fsys)))) ''/'' \<noteq> None
    \<and> listings_distinct (snd (deploy_decoy path content (snd (deploy_decoy path content fsys))))"
proof -
  from deploy_decoy_once [OF assms, of path content] obtain m1 where
    run: "deploy_decoy path content fsys
            = (None, \<lparr>fs = m1, file_contents = (file_contents fsys)(path \<mapsto> content)\<rparr>)"
    and g: "grows (fs fsys) m1"
    and di: "\<forall>d nd. m1 d = Some nd \<longrightarrow> distinct (contents nd)"
    and fl: "\<exists>nd. m1 (decoy_parent path) = Some nd \<and> decoy_filename path \<in> set (contents nd)"
    and ch: "\<forall>(p, n, d) \<in> set (decoy_ancestors path).
                 m1 d \<noteq> None
               \<and> (fs fsys d = None \<longrightarrow> (\<exists>nd. m1 p = Some nd \<and> n \<in> set (contents nd)))"
    by blast
  let ?s1 = "\<lparr>fs = m1, file_contents = (file_contents fsys)(path \<mapsto> content)\<rparr>"
  have s1: "snd (deploy_decoy path content fsys) = ?s1" using run by simp
  from fl obtain nd where nd: "fs ?s1 (decoy_parent path) = Some nd"
    "decoy_filename path \<in> set (contents nd)" by auto
  have ex: "\<forall>(p, n, d) \<in> set (decoy_ancestors path). fs ?s1 d \<noteq> None"
    using ch by auto
  have again: "deploy_decoy path c ?s1
                 = (None, ?s1\<lparr>file_contents := (file_contents ?s1)(path \<mapsto> c)\<rparr>)" for c
    using deploy_decoy_again [OF ex nd] .
  have same: "deploy_decoy path content ?s1 = (None, ?s1)"
    using again [of content] by simp
  have cnt: "listing_count ?s1 (decoy_parent path) (decoy_filename path) = 1"
    using nd di count_list_distinct [of "contents nd" "decoy_filename path"]
    by (simp add: listing_count_def)
  have anc: "listing_count ?s1 p n = 1"
    if "(p, n, d) \<in> set (decoy_ancestors path)" "fs fsys d = None" for p n d
  proof -
    from ch that obtain nd' where "m1 p = Some nd'" "n \<in> set (contents nd')" by fastforce
    with di count_list_distinct [of "contents nd'" n] show ?thesis
      by (simp add: listing_count_def)
  qed
  have root: "fs ?s1 ''/'' \<noteq> None"
    using grows_dom [OF g assms(1)] by simp
  have dist: "listings_distinct ?s1"
    using di by (simp add: listings_distinct_def)
  have a: "fst (deploy_decoy path content fsys) = None" using run by simp
  have b: "fst (deploy_decoy path content' ?s1) = None
      \<and> fs (snd (deploy_decoy path content' ?s1)) = fs ?s1"
    using again [of content'] by simp
  have anc': "\<forall>(p, n, d) \<in> set (decoy_ancestors path).
          fs fsys d = None \<longrightarrow> listing_count ?s1 p n = 1"
    using anc by auto
  from a b same cnt anc' root dist show ?thesis
    unfolding s1 by simp
qed

theorem deploy_decoy_twice_lists_once_witness:
  "fs FakeFilesystem ''/'' \<noteq> None \<and> listings_distinct FakeFilesystem
   \<and> decoy_parent ''/var/www/config.php'' = ''/var/www''
   \<and> decoy_filename ''/var/www/config.php'' = ''config.php''
   \<and> (''/var'', ''www'', ''/var/www'') \<in> set (decoy_ancestors ''/var/www/config.php'')
   \<and> fs FakeFilesystem ''/var/www'' = None
   \<and> listing_count
        (snd (deploy_decoy ''/var/www/config.php'' (JStr ''DB_PASS=x'')
           (snd (deploy_decoy ''/var/www/config.php'' (JStr ''DB_PASS=x'') FakeFilesystem))))
        ''/var/www'' ''config.php'' = 1
   \<and> listing_count
        (snd (deploy_decoy ''/var/www/config.php'' (JStr ''DB_PASS=x'')
           (snd (deploy_decoy ''/var/www/config.php'' (JStr ''DB_PASS=x'') FakeFilesystem))))
        ''/var'' ''www'' = 1"
proof -
  note wf = FakeFilesystem_well_formed
  have p: "decoy_parts ''/var/www/config.php'' = [''var'', ''www'', ''config.php'']"
    by (simp add: decoy_parts_def strip_char_def)
  have e1: "decoy_parent ''/var/www/config.php'' = ''/var/www''"
    by (simp add: decoy_parent_def p join_dir_def)
  have e2: "decoy_filename ''/var/www/config.php'' = ''config.php''"
    by (simp add: decoy_filename_def p)
  have e3: "(''/var'', ''www'', ''/var/www'') \<in> set (decoy_ancestors ''/var/www/config.php'')"
    by (simp add: decoy_ancestors_def p join_dir_def)
  have e4: "fs FakeFilesystem ''/var/www'' = None"
    by (simp add: FakeFilesystem_def init_fs_alist_def)
  note w = deploy_decoy_twice_lists_once
             [OF wf, of "''/var/www/config.php''" "JStr ''DB_PASS=x''" "JStr ''DB_PASS=x''"]
  let ?twice = "snd (deploy_decoy ''/var/www/config.php'' (JStr ''DB_PASS=x'')
           (snd (deploy_decoy ''/var/www/config.php'' (JStr ''DB_PASS=x'') FakeFilesystem)))"
  from w have "listing_count ?twice (decoy_parent ''/var/www/config.php'')
                 (decoy_filename ''/var/www/config.php'') = 1"
    by (elim conjE)
  then have c1: "listing_count ?twice ''/var/www'' ''config.php'' = 1"
    by (simp only: e1 e2)
  from w have "\<forall>(parent, name, dir) \<in> set (decoy_ancestors ''/var/www/config.php'').
          fs FakeFilesystem dir = None \<longrightarrow> listing_count ?twice parent name = 1"
    by (elim conjE)
  with e3 e4 have c2: "listing_count ?twice ''/var'' ''www'' = 1"
    by fastforce
  from wf e1 e2 e3 e4 c1 c2 show ?thesis by blast
qed

end
